theory Spec2Isabelle
  imports Complex_Main
begin

section \<open>The student points server (server.js)\<close>

text \<open>
  The server keeps three JSON documents (students, created activities, assigned
  activities). Every handler reads the documents it needs, validates the request, changes
  the arrays in memory and writes them back. The handlers are modelled as functions from
  the request and the stored documents to a response and the stored documents afterwards;
  the reading and writing of a document as a file is modelled on its own.

  Typing of the dynamic parts. Strings are lists of ASCII characters. The numbers of the
  requests and of the documents are integers of the safe range, and \<open>parseInt\<close> of such a
  Number is that number. A field of a JSON request body has the type the records below
  give it and is \<open>None\<close> when the body lacks it. Path and query parameters are strings,
  read with \<open>parseInt\<close>. The clock values (\<open>Date.now ()\<close>, \<open>toISOString\<close>,
  \<open>toLocaleDateString\<close>) are inputs of each call.
\<close>

subsection \<open>Strings and \<open>parseInt\<close>\<close>

definition isWhiteSpace :: "char \<Rightarrow> bool" where
  "isWhiteSpace c \<longleftrightarrow>
     c \<in> set [CHR 0x09, CHR 0x0A, CHR 0x0B, CHR 0x0C, CHR 0x0D, CHR '' '']"

definition trim :: "string \<Rightarrow> string" where
  "trim s = rev (dropWhile isWhiteSpace (rev (dropWhile isWhiteSpace s)))"

definition lowerChar :: "char \<Rightarrow> char" where
  "lowerChar c =
     (let n = (of_char c :: nat) in if 65 \<le> n \<and> n \<le> 90 then char_of (n + 32) else c)"

definition toLowerCase :: "string \<Rightarrow> string" where
  "toLowerCase s = map lowerChar s"

definition digitValue :: "char \<Rightarrow> nat option" where
  "digitValue c =
     (let n = (of_char c :: nat) in
      if 48 \<le> n \<and> n \<le> 57 then Some (n - 48)
      else if 97 \<le> n \<and> n \<le> 102 then Some (n - 87)
      else if 65 \<le> n \<and> n \<le> 70 then Some (n - 55)
      else None)"

definition isRadixDigit :: "nat \<Rightarrow> char \<Rightarrow> bool" where
  "isRadixDigit R c = (case digitValue c of None \<Rightarrow> False | Some d \<Rightarrow> d < R)"

definition digitsValue :: "nat \<Rightarrow> string \<Rightarrow> int" where
  "digitsValue R z =
     foldl (\<lambda>a c. a * int R + (case digitValue c of None \<Rightarrow> 0 | Some d \<Rightarrow> int d)) 0 z"

text \<open>
  \<open>parseInt\<close> with no radix: leading white space is skipped, one sign is read, a
  \<open>0x\<close> prefix selects radix 16, and the longest run of digits is the value; \<open>None\<close> is
  \<open>NaN\<close>.
\<close>

definition parseInt :: "string \<Rightarrow> int option" where
  "parseInt s =
     (let s1 = dropWhile isWhiteSpace s;
          sign = (case s1 of c # _ \<Rightarrow> if c = CHR ''-'' then - 1 else (1 :: int) | [] \<Rightarrow> 1);
          s2 = (case s1 of c # r \<Rightarrow> if c = CHR ''-'' \<or> c = CHR ''+'' then r else s1 | [] \<Rightarrow> s1);
          hex = (case s2 of a # b # _ \<Rightarrow> a = CHR ''0'' \<and> (b = CHR ''x'' \<or> b = CHR ''X'') | _ \<Rightarrow> False);
          R = (if hex then 16 else 10);
          s3 = (if hex then drop 2 s2 else s2);
          z = takeWhile (isRadixDigit R) s3
      in if z = [] then None else Some (sign * digitsValue R z))"

text \<open>The decimal digits of an integer, as \<open>String\<close> and \<open>JSON.stringify\<close> write it.\<close>

definition isDigit :: "char \<Rightarrow> bool" where
  "isDigit c \<longleftrightarrow> 48 \<le> (of_char c :: nat) \<and> (of_char c :: nat) \<le> 57"

definition digitChar :: "nat \<Rightarrow> char" where
  "digitChar d = char_of (48 + d)"

fun digits :: "nat \<Rightarrow> string" where
  "digits n = (if n < 10 then [digitChar n] else digits (n div 10) @ [digitChar (n mod 10)])"

definition numberToString :: "int \<Rightarrow> string" where
  "numberToString i = (if i < 0 then CHR ''-'' # digits (nat (- i)) else digits (nat i))"

subsection \<open>Numbers\<close>

text \<open>
  A Number is a binary64 value. The stored totals, the ids and the points are integers of
  the safe range, and on these the sums and differences that stay in the safe range are
  exact, and so is \<open>Math.floor (a / 100)\<close>, which is \<open>a div 100\<close>. A sum outside of that
  range and a quotient by an arbitrary count are rounded to 53 significant bits, ties to
  the even significand: \<open>binary64 x\<close> is that rounding of the exact result \<open>x\<close> (within
  the normal range of exponents), and \<open>ulp x\<close> is the distance of neighbouring values at
  \<open>x\<close>.
\<close>

function bitLength :: "int \<Rightarrow> nat" where
  "bitLength m = (if m \<le> 0 then 0 else Suc (bitLength (m div 2)))"
  by pat_completeness auto
termination
  by (relation "measure nat") auto

text \<open>The \<open>e\<close> with \<open>2 ^ e \<le> y < 2 ^ (e + 1)\<close>, for \<open>y > 0\<close>.\<close>

definition binaryExponent :: "real \<Rightarrow> int" where
  "binaryExponent y =
     (if 1 \<le> y then int (bitLength \<lfloor>y\<rfloor>) - 1 else - int (bitLength (\<lceil>1 / y\<rceil> - 1)))"

definition roundHalfEven :: "real \<Rightarrow> int" where
  "roundHalfEven y =
     (let f = \<lfloor>y\<rfloor> in
      if y - of_int f < 1 / 2 then f
      else if y - of_int f > 1 / 2 then f + 1
      else if even f then f else f + 1)"

definition ulp :: "real \<Rightarrow> real" where
  "ulp x =
     (let e = binaryExponent \<bar>x\<bar> in if 52 \<le> e then 2 ^ nat (e - 52) else 1 / 2 ^ nat (52 - e))"

definition binary64 :: "real \<Rightarrow> real" where
  "binary64 x = (if x = 0 then 0 else ulp x * of_int (roundHalfEven (x / ulp x)))"

text \<open>\<open>Math.round\<close>: the nearest integer, a half going up.\<close>

definition Math_round :: "real \<Rightarrow> int" where
  "Math_round x = \<lfloor>x + 1 / 2\<rfloor>"

subsection \<open>The stored documents\<close>

record student =
  student_id :: int
  student_name :: string
  pokemonType :: string
  totalPoints :: int
  student_createdAt :: string
  updatedAt :: "string option"

record createdActivity =
  activity_id :: int
  activity_name :: string
  defaultPoints :: int
  description :: string
  activity_createdAt :: string

record activityRecord =
  record_id :: int
  studentId :: int
  activityId :: int
  record_name :: string
  points :: int
  date :: string
  record_createdAt :: string

text \<open>
  What \<open>readJSONFile\<close> returns for \<open>STUDENTS_FILE\<close>, \<open>ACTIVITIES_FILE\<close> and
  \<open>CREATED_ACTIVITIES_FILE\<close> (the empty array for a file that is missing or corrupt).
\<close>

record store =
  students :: "student list"
  activities :: "activityRecord list"
  createdActivities :: "createdActivity list"

record clock =
  now :: int
  toISOString :: string
  toLocaleDateString :: string

text \<open>The status of a response that is not a success: 400, 409, 404 and 500.\<close>

datatype error = InvalidArgument | Conflict | NotFound | Internal

fun findIndex :: "('a \<Rightarrow> bool) \<Rightarrow> 'a list \<Rightarrow> nat option" where
  "findIndex P [] = None"
| "findIndex P (x # xs) =
     (if P x then Some 0 else (case findIndex P xs of None \<Rightarrow> None | Some i \<Rightarrow> Some (Suc i)))"

subsection \<open>Students\<close>

text \<open>\<open>POST /api/students\<close>\<close>

fun createStudent ::
  "clock \<Rightarrow> string option \<Rightarrow> string option \<Rightarrow> store \<Rightarrow> (error + student) \<times> store" where
  "createStudent clk (Some name) (Some ptype) st =
     (if name = [] \<or> ptype = [] then (Inl InvalidArgument, st)
      else
        (case find (\<lambda>s. toLowerCase (student_name s) = toLowerCase name) (students st) of
           Some existingStudent \<Rightarrow> (Inl Conflict, st)
         | None \<Rightarrow>
             (let newStudent =
                    \<lparr>student_id = now clk, student_name = trim name, pokemonType = ptype,
                     totalPoints = 0, student_createdAt = toISOString clk, updatedAt = None\<rparr>
              in (Inr newStudent, st\<lparr>students := students st @ [newStudent]\<rparr>))))"
| "createStudent clk _ _ st = (Inl InvalidArgument, st)"

text \<open>\<open>PUT /api/students/:id\<close>\<close>

definition updateStudent ::
  "clock \<Rightarrow> string \<Rightarrow> int option \<Rightarrow> store \<Rightarrow> (error + student) \<times> store" where
  "updateStudent clk idParam newPoints st =
     (case parseInt idParam of
        None \<Rightarrow> (Inl InvalidArgument, st)
      | Some sid \<Rightarrow>
          (case findIndex (\<lambda>s. student_id s = sid) (students st) of
             None \<Rightarrow> (Inl NotFound, st)
           | Some studentIndex \<Rightarrow>
               (let old = students st ! studentIndex;
                    new = (case newPoints of
                             None \<Rightarrow> old
                           | Some p \<Rightarrow> old\<lparr>totalPoints := p, updatedAt := Some (toISOString clk)\<rparr>)
                in (Inr new, st\<lparr>students := (students st)[studentIndex := new]\<rparr>))))"

text \<open>\<open>DELETE /api/students/:id\<close>\<close>

definition deleteStudent :: "string \<Rightarrow> store \<Rightarrow> (error + unit) \<times> store" where
  "deleteStudent idParam st =
     (case parseInt idParam of
        None \<Rightarrow> (Inl InvalidArgument, st)
      | Some sid \<Rightarrow>
          (let initialLength = length (students st);
               filteredStudents = filter (\<lambda>s. student_id s \<noteq> sid) (students st)
           in if length filteredStudents = initialLength then (Inl NotFound, st)
              else (Inr (), st\<lparr>students := filteredStudents\<rparr>)))"

subsection \<open>Created activities\<close>

text \<open>\<open>POST /api/created-activities\<close>\<close>

fun createActivity ::
  "clock \<Rightarrow> string option \<Rightarrow> int option \<Rightarrow> string option \<Rightarrow> store \<Rightarrow>
   (error + createdActivity) \<times> store" where
  "createActivity clk (Some name) (Some dp) desc st =
     (if name = [] \<or> dp = 0 then (Inl InvalidArgument, st)
      else if dp < 1 \<or> dp > 100 then (Inl InvalidArgument, st)
      else
        (case find (\<lambda>a. toLowerCase (activity_name a) = toLowerCase name) (createdActivities st) of
           Some existingActivity \<Rightarrow> (Inl Conflict, st)
         | None \<Rightarrow>
             (let newActivity =
                    \<lparr>activity_id = now clk, activity_name = trim name, defaultPoints = dp,
                     description = (case desc of None \<Rightarrow> [] | Some d \<Rightarrow> if d = [] then [] else trim d),
                     activity_createdAt = toISOString clk\<rparr>
              in (Inr newActivity, st\<lparr>createdActivities := createdActivities st @ [newActivity]\<rparr>))))"
| "createActivity clk _ _ desc st = (Inl InvalidArgument, st)"

text \<open>\<open>DELETE /api/created-activities/:id\<close>\<close>

definition deleteActivity :: "string \<Rightarrow> store \<Rightarrow> (error + unit) \<times> store" where
  "deleteActivity idParam st =
     (case parseInt idParam of
        None \<Rightarrow> (Inl InvalidArgument, st)
      | Some aid \<Rightarrow>
          (let initialLength = length (createdActivities st);
               filteredActivities = filter (\<lambda>a. activity_id a \<noteq> aid) (createdActivities st)
           in if length filteredActivities = initialLength then (Inl NotFound, st)
              else (Inr (), st\<lparr>createdActivities := filteredActivities\<rparr>)))"

subsection \<open>Assigned activities\<close>

record awardResult =
  award_activity :: activityRecord
  award_student :: student
  evolved :: bool
  newLevel :: int

text \<open>
  \<open>POST /api/activities\<close>. The three body fields are numbers; \<open>!x\<close> holds of a missing
  field and of 0.
\<close>

fun awardPoints ::
  "clock \<Rightarrow> int option \<Rightarrow> int option \<Rightarrow> int option \<Rightarrow> store \<Rightarrow>
   (error + awardResult) \<times> store" where
  "awardPoints clk (Some sid) (Some aid) (Some pts) st =
     (if sid = 0 \<or> aid = 0 \<or> pts = 0 then (Inl InvalidArgument, st)
      else if pts < 1 \<or> pts > 100 then (Inl InvalidArgument, st)
      else
        (case find (\<lambda>s. student_id s = sid) (students st) of
           None \<Rightarrow> (Inl NotFound, st)
         | Some student \<Rightarrow>
             (case find (\<lambda>a. activity_id a = aid) (createdActivities st) of
                None \<Rightarrow> (Inl NotFound, st)
              | Some template \<Rightarrow>
                  (case findIndex (\<lambda>s. student_id s = sid) (students st) of
                     None \<Rightarrow> (Inl Internal, st)
                   | Some studentIndex \<Rightarrow>
                       (let oldPoints = totalPoints (students st ! studentIndex);
                            students1 = (students st)
                              [studentIndex := (students st ! studentIndex)
                                 \<lparr>totalPoints := oldPoints + pts,
                                  updatedAt := Some (toISOString clk)\<rparr>];
                            newActivityRecord =
                              \<lparr>record_id = now clk, studentId = sid, activityId = aid,
                               record_name = activity_name template, points = pts,
                               date = toLocaleDateString clk,
                               record_createdAt = toISOString clk\<rparr>;
                            oldLevel = min 2 (oldPoints div 100);
                            level = min 2 (totalPoints (students1 ! studentIndex) div 100)
                        in (Inr \<lparr>award_activity = newActivityRecord,
                                 award_student = students1 ! studentIndex,
                                 evolved = (level > oldLevel), newLevel = level\<rparr>,
                            st\<lparr>students := students1,
                               activities := activities st @ [newActivityRecord]\<rparr>))))))"
| "awardPoints clk _ _ _ st = (Inl InvalidArgument, st)"

text \<open>\<open>GET /api/activities/student/:studentId\<close>\<close>

definition studentActivities :: "string \<Rightarrow> store \<Rightarrow> error + activityRecord list" where
  "studentActivities idParam st =
     (case parseInt idParam of
        None \<Rightarrow> Inl InvalidArgument
      | Some sid \<Rightarrow> Inr (filter (\<lambda>a. studentId a = sid) (activities st)))"

subsection \<open>Ranking and statistics\<close>

text \<open>
  \<open>xs.slice (0, e)\<close>: \<open>NaN\<close> counts as 0, and a negative end counts from the end of the
  array.
\<close>

definition slice0 :: "'a list \<Rightarrow> int option \<Rightarrow> 'a list" where
  "slice0 xs e =
     (case e of
        None \<Rightarrow> []
      | Some k \<Rightarrow> if k < 0 then take (nat (int (length xs) + k)) xs else take (nat k) xs)"

text \<open>
  \<open>GET /api/ranking\<close>. The sort of the array is stable, as \<open>sort_key\<close> is; a positive
  value of the comparator \<open>b.totalPoints - a.totalPoints\<close> puts \<open>b\<close> first, which is the
  ascending order of the negated points.
\<close>

definition ranking :: "string option \<Rightarrow> string option \<Rightarrow> store \<Rightarrow> student list \<times> nat" where
  "ranking pokemon limit st =
     (let filteredStudents =
            (case pokemon of
               None \<Rightarrow> students st
             | Some p \<Rightarrow>
                 if p \<noteq> [] \<and> p \<noteq> ''all'' then filter (\<lambda>s. pokemonType s = p) (students st)
                 else students st);
          sortedStudents = sort_key (\<lambda>s. - totalPoints s) filteredStudents
      in (slice0 sortedStudents (case limit of None \<Rightarrow> Some 5 | Some l \<Rightarrow> parseInt l),
          length filteredStudents))"

text \<open>
  \<open>counts[k] = (counts[k] || 0) + 1\<close> on an object that starts as \<open>{}\<close>. The keys are
  strings (a level is the key \<open>String (level)\<close>). A name that \<open>{}\<close> inherits from
  \<open>Object.prototype\<close> reads as a function until it is set, and the sum of a function or of
  a string and 1 is a string, not a count; \<open>__proto__\<close> reads as an object and cannot be
  set to a string.
\<close>

datatype tally = Count nat | Concatenation

definition inheritedNames :: "string list" where
  "inheritedNames =
     [''constructor'', ''__defineGetter__'', ''__defineSetter__'', ''hasOwnProperty'',
      ''__lookupGetter__'', ''__lookupSetter__'', ''isPrototypeOf'', ''propertyIsEnumerable'',
      ''toString'', ''valueOf'', ''toLocaleString'']"

definition countUp :: "(string \<rightharpoonup> tally) \<Rightarrow> string \<Rightarrow> (string \<rightharpoonup> tally)" where
  "countUp counts k =
     (if k = ''__proto__'' then counts
      else
        (case counts k of
           Some (Count c) \<Rightarrow> counts(k \<mapsto> Count (c + 1))
         | Some Concatenation \<Rightarrow> counts(k \<mapsto> Concatenation)
         | None \<Rightarrow>
             if k \<in> set inheritedNames then counts(k \<mapsto> Concatenation)
             else counts(k \<mapsto> Count 1)))"

record stats =
  totalStudents :: nat
  totalActivities :: nat
  totalActivitiesAssigned :: nat
  stats_totalPoints :: real
  averagePoints :: int
  pokemonDistribution :: "string \<rightharpoonup> tally"
  evolutionDistribution :: "string \<rightharpoonup> tally"

text \<open>\<open>GET /api/stats\<close>\<close>

definition getStats :: "store \<Rightarrow> stats" where
  "getStats st =
     (let pointsSum =
            foldl (\<lambda>sum s. binary64 (sum + real_of_int (totalPoints s))) 0 (students st);
          avgPoints = (if length (students st) > 0
                       then Math_round (binary64 (pointsSum / real (length (students st))))
                       else 0);
          pokemonCount = foldl (\<lambda>counts s. countUp counts (pokemonType s)) Map.empty (students st);
          evolutionLevels =
            foldl (\<lambda>levels s. countUp levels (numberToString (min 2 (totalPoints s div 100))))
              Map.empty (students st)
      in \<lparr>totalStudents = length (students st),
          totalActivities = length (createdActivities st),
          totalActivitiesAssigned = length (activities st),
          stats_totalPoints = pointsSum,
          averagePoints = avgPoints,
          pokemonDistribution = pokemonCount,
          evolutionDistribution = evolutionLevels\<rparr>)"

subsection \<open>The routes\<close>

datatype request =
    GetStudents
  | PostStudents "string option" "string option"
  | PutStudent string "int option"
  | DeleteStudent string
  | GetCreatedActivities
  | PostCreatedActivities "string option" "int option" "string option"
  | DeleteCreatedActivity string
  | GetActivities
  | PostActivities "int option" "int option" "int option"
  | GetStudentActivities string
  | GetRanking "string option" "string option"
  | GetStats

datatype reply =
    StudentList "student list"
  | OneStudent student
  | Deleted
  | CreatedActivityList "createdActivity list"
  | OneCreatedActivity createdActivity
  | ActivityList "activityRecord list"
  | Awarded awardResult
  | Ranked "student list" nat
  | Statistics stats

definition reply_with :: "('a \<Rightarrow> reply) \<Rightarrow> (error + 'a) \<times> store \<Rightarrow> (error + reply) \<times> store" where
  "reply_with f r = (map_sum (\<lambda>e. e) f (fst r), snd r)"

fun handle :: "clock \<Rightarrow> request \<Rightarrow> store \<Rightarrow> (error + reply) \<times> store" where
  "handle clk GetStudents st = (Inr (StudentList (students st)), st)"
| "handle clk (PostStudents name ptype) st = reply_with OneStudent (createStudent clk name ptype st)"
| "handle clk (PutStudent i p) st = reply_with OneStudent (updateStudent clk i p st)"
| "handle clk (DeleteStudent i) st = reply_with (\<lambda>_. Deleted) (deleteStudent i st)"
| "handle clk GetCreatedActivities st = (Inr (CreatedActivityList (createdActivities st)), st)"
| "handle clk (PostCreatedActivities name dp desc) st =
     reply_with OneCreatedActivity (createActivity clk name dp desc st)"
| "handle clk (DeleteCreatedActivity i) st = reply_with (\<lambda>_. Deleted) (deleteActivity i st)"
| "handle clk GetActivities st = (Inr (ActivityList (activities st)), st)"
| "handle clk (PostActivities sid aid pts) st = reply_with Awarded (awardPoints clk sid aid pts st)"
| "handle clk (GetStudentActivities i) st = (map_sum (\<lambda>e. e) ActivityList (studentActivities i st), st)"
| "handle clk (GetRanking pokemon limit) st =
     (Inr (Ranked (fst (ranking pokemon limit st)) (snd (ranking pokemon limit st))), st)"
| "handle clk GetStats st = (Inr (Statistics (getStats st)), st)"

subsection \<open>The document store\<close>

text \<open>
  The documents are JSON texts, written with \<open>JSON.stringify (data, null, 2)\<close> and read
  with \<open>JSON.parse\<close>. Both are modelled as far as the stored documents need them: the
  values are \<open>null\<close>, booleans, integers, strings, arrays and objects, and an object is
  the list of its properties in the order of enumeration.
\<close>

datatype json =
    JNull
  | JBool bool
  | JNumber int
  | JString string
  | JArray "json list"
  | JObject "(string \<times> json) list"

text \<open>
  \<open>JSON.stringify\<close> with the indentation of two spaces: the first argument of
  \<open>stringify\<close> is the depth of nesting.
\<close>

definition hexChar :: "nat \<Rightarrow> char" where
  "hexChar d = (if d < 10 then char_of (48 + d) else char_of (87 + d))"

definition escapeChar :: "char \<Rightarrow> string" where
  "escapeChar c =
     (if c = CHR 0x22 then [CHR 0x5C, CHR 0x22]
      else if c = CHR 0x5C then [CHR 0x5C, CHR 0x5C]
      else if c = CHR 0x08 then [CHR 0x5C, CHR ''b'']
      else if c = CHR 0x0C then [CHR 0x5C, CHR ''f'']
      else if c = CHR 0x0A then [CHR 0x5C, CHR ''n'']
      else if c = CHR 0x0D then [CHR 0x5C, CHR ''r'']
      else if c = CHR 0x09 then [CHR 0x5C, CHR ''t'']
      else if (of_char c :: nat) < 32 then
        [CHR 0x5C, CHR ''u'', CHR ''0'', CHR ''0'',
         hexChar ((of_char c :: nat) div 16), hexChar ((of_char c :: nat) mod 16)]
      else [c])"

definition quoteJSONString :: "string \<Rightarrow> string" where
  "quoteJSONString s = CHR 0x22 # concat (map escapeChar s) @ [CHR 0x22]"

definition newline :: "nat \<Rightarrow> string" where
  "newline n = CHR 0x0A # replicate (2 * n) CHR '' ''"

fun stringify :: "nat \<Rightarrow> json \<Rightarrow> string"
  and stringifyElems :: "nat \<Rightarrow> json list \<Rightarrow> string"
  and stringifyMembers :: "nat \<Rightarrow> (string \<times> json) list \<Rightarrow> string" where
  "stringify n JNull = ''null''"
| "stringify n (JBool b) = (if b then ''true'' else ''false'')"
| "stringify n (JNumber i) = numberToString i"
| "stringify n (JString s) = quoteJSONString s"
| "stringify n (JArray xs) =
     (if xs = [] then ''[]''
      else CHR ''['' # newline (Suc n) @ stringifyElems (Suc n) xs @ newline n @ '']'')"
| "stringify n (JObject kvs) =
     (if kvs = [] then ''{}''
      else CHR ''{'' # newline (Suc n) @ stringifyMembers (Suc n) kvs @ newline n @ ''}'')"
| "stringifyElems n [] = []"
| "stringifyElems n (x # xs) =
     stringify n x @ (if xs = [] then [] else CHR '','' # newline n @ stringifyElems n xs)"
| "stringifyMembers n [] = []"
| "stringifyMembers n ((k, v) # kvs) =
     quoteJSONString k @ '': '' @ stringify n v
       @ (if kvs = [] then [] else CHR '','' # newline n @ stringifyMembers n kvs)"

definition JSON_stringify :: "json \<Rightarrow> string" where
  "JSON_stringify v = stringify 0 v"

text \<open>
  \<open>JSON.parse\<close>. Numbers with a fraction or an exponent and escaped code points beyond
  \<open>00ff\<close> are outside of these values and are not read. The first argument of
  \<open>parseValue\<close> bounds the number of nested calls; \<open>JSON_parse\<close> gives twice the length
  of the text, and each second nested call has read at least one character.
\<close>

definition isJSONWhiteSpace :: "char \<Rightarrow> bool" where
  "isJSONWhiteSpace c \<longleftrightarrow> c = CHR '' '' \<or> c = CHR 0x09 \<or> c = CHR 0x0A \<or> c = CHR 0x0D"

definition skipWhiteSpace :: "string \<Rightarrow> string" where
  "skipWhiteSpace s = dropWhile isJSONWhiteSpace s"

definition readDigits :: "string \<Rightarrow> nat" where
  "readDigits ds = foldl (\<lambda>a c. a * 10 + ((of_char c :: nat) - 48)) 0 ds"

definition parseNumber :: "string \<Rightarrow> (json \<times> string) option" where
  "parseNumber s =
     (let neg = (case s of c # _ \<Rightarrow> c = CHR ''-'' | [] \<Rightarrow> False);
          s1 = (if neg then tl s else s);
          ds = takeWhile isDigit s1;
          rest = dropWhile isDigit s1
      in if ds = [] then None
         else if hd ds = CHR ''0'' \<and> length ds > 1 then None
         else if (case rest of c # _ \<Rightarrow> c = CHR ''.'' \<or> c = CHR ''e'' \<or> c = CHR ''E'' | [] \<Rightarrow> False)
           then None
         else Some (JNumber (if neg then - int (readDigits ds) else int (readDigits ds)), rest))"

definition unescape :: "char \<Rightarrow> char option" where
  "unescape e =
     (if e = CHR 0x22 then Some (CHR 0x22)
      else if e = CHR 0x5C then Some (CHR 0x5C)
      else if e = CHR ''/'' then Some (CHR ''/'')
      else if e = CHR ''b'' then Some (CHR 0x08)
      else if e = CHR ''f'' then Some (CHR 0x0C)
      else if e = CHR ''n'' then Some (CHR 0x0A)
      else if e = CHR ''r'' then Some (CHR 0x0D)
      else if e = CHR ''t'' then Some (CHR 0x09)
      else None)"

definition consResult :: "'a \<Rightarrow> ('a list \<times> 'b) option \<Rightarrow> ('a list \<times> 'b) option" where
  "consResult x r = (case r of None \<Rightarrow> None | Some (xs, t) \<Rightarrow> Some (x # xs, t))"

fun parseString :: "string \<Rightarrow> (string \<times> string) option" where
  "parseString [] = None"
| "parseString (c # r) =
     (if c = CHR 0x22 then Some ([], r)
      else if c = CHR 0x5C then
        (case r of
           [] \<Rightarrow> None
         | e # r1 \<Rightarrow>
             if e = CHR ''u'' then
               (case r1 of
                  a # b # x # y # r2 \<Rightarrow>
                    (case (digitValue a, digitValue b, digitValue x, digitValue y) of
                       (Some ha, Some hb, Some hx, Some hy) \<Rightarrow>
                         (let n = ((ha * 16 + hb) * 16 + hx) * 16 + hy
                          in if n < 256 then consResult (char_of n) (parseString r2) else None)
                     | _ \<Rightarrow> None)
                | _ \<Rightarrow> None)
             else
               (case unescape e of
                  None \<Rightarrow> None
                | Some ch \<Rightarrow> consResult ch (parseString r1)))
      else if (of_char c :: nat) < 32 then None
      else consResult c (parseString r))"

text \<open>
  A property that occurs again in an object text replaces the value and keeps the place
  of the first occurrence.
\<close>

fun setProperty :: "(string \<times> json) list \<Rightarrow> string \<times> json \<Rightarrow> (string \<times> json) list" where
  "setProperty [] kv = [kv]"
| "setProperty ((k', v') # ps) kv =
     (if k' = fst kv then (k', snd kv) # ps else (k', v') # setProperty ps kv)"

definition buildObject :: "(string \<times> json) list \<Rightarrow> (string \<times> json) list" where
  "buildObject kvs = foldl setProperty [] kvs"


fun parseValue :: "nat \<Rightarrow> string \<Rightarrow> (json \<times> string) option"
  and parseElems :: "nat \<Rightarrow> string \<Rightarrow> (json list \<times> string) option"
  and parseMembers :: "nat \<Rightarrow> string \<Rightarrow> ((string \<times> json) list \<times> string) option" where
  "parseValue 0 s = None"
| "parseValue (Suc f) s =
     (case skipWhiteSpace s of
        [] \<Rightarrow> None
      | c # r \<Rightarrow>
          if c = CHR ''['' then
            (case skipWhiteSpace r of
               [] \<Rightarrow> None
             | c1 # r1 \<Rightarrow>
                 if c1 = CHR '']'' then Some (JArray [], r1)
                 else (case parseElems f r of
                         None \<Rightarrow> None
                       | Some (xs, t) \<Rightarrow> Some (JArray xs, t)))
          else if c = CHR ''{'' then
            (case skipWhiteSpace r of
               [] \<Rightarrow> None
             | c1 # r1 \<Rightarrow>
                 if c1 = CHR ''}'' then Some (JObject [], r1)
                 else (case parseMembers f r of
                         None \<Rightarrow> None
                       | Some (kvs, t) \<Rightarrow> Some (JObject (buildObject kvs), t)))
          else if c = CHR 0x22 then
            (case parseString r of None \<Rightarrow> None | Some (str, t) \<Rightarrow> Some (JString str, t))
          else if c = CHR ''-'' \<or> isDigit c then parseNumber (c # r)
          else if take 4 (c # r) = ''null'' then Some (JNull, drop 4 (c # r))
          else if take 4 (c # r) = ''true'' then Some (JBool True, drop 4 (c # r))
          else if take 5 (c # r) = ''false'' then Some (JBool False, drop 5 (c # r))
          else None)"
| "parseElems 0 s = None"
| "parseElems (Suc f) s =
     (case parseValue f s of
        None \<Rightarrow> None
      | Some (x, t) \<Rightarrow>
          (case skipWhiteSpace t of
             [] \<Rightarrow> None
           | c # r \<Rightarrow>
               if c = CHR '','' then consResult x (parseElems f r)
               else if c = CHR '']'' then Some ([x], r)
               else None))"
| "parseMembers 0 s = None"
| "parseMembers (Suc f) s =
     (case skipWhiteSpace s of
        [] \<Rightarrow> None
      | q # r \<Rightarrow>
          if q = CHR 0x22 then
            (case parseString r of
               None \<Rightarrow> None
             | Some (k, t) \<Rightarrow>
                 (case skipWhiteSpace t of
                    [] \<Rightarrow> None
                  | c # t1 \<Rightarrow>
                      if c = CHR '':'' then
                        (case parseValue f t1 of
                           None \<Rightarrow> None
                         | Some (v, u) \<Rightarrow>
                             (case skipWhiteSpace u of
                                [] \<Rightarrow> None
                              | c2 # u1 \<Rightarrow>
                                  if c2 = CHR '','' then consResult (k, v) (parseMembers f u1)
                                  else if c2 = CHR ''}'' then Some ([(k, v)], u1)
                                  else None))
                      else None))
          else None)"

datatype exception = ENOENT | EACCES | SyntaxError

definition JSON_parse :: "string \<Rightarrow> exception + json" where
  "JSON_parse s =
     (case parseValue (2 * length s + 2) s of
        None \<Rightarrow> Inl SyntaxError
      | Some (v, rest) \<Rightarrow> if skipWhiteSpace rest = [] then Inr v else Inl SyntaxError)"

text \<open>
  The values that a JavaScript value of these kinds is serialised from: the properties of
  an object have distinct names, and no name is an array index (those are enumerated
  first, in numeric order, whatever the order of the text).
\<close>

definition isArrayIndex :: "string \<Rightarrow> bool" where
  "isArrayIndex k \<longleftrightarrow> k \<noteq> [] \<and> list_all isDigit k \<and> (k = ''0'' \<or> hd k \<noteq> CHR ''0'')"

fun isJSValue :: "json \<Rightarrow> bool"
  and areJSValues :: "json list \<Rightarrow> bool"
  and areProperties :: "(string \<times> json) list \<Rightarrow> bool" where
  "isJSValue (JArray xs) = areJSValues xs"
| "isJSValue (JObject kvs) = (distinct (map fst kvs) \<and> areProperties kvs)"
| "isJSValue _ = True"
| "areJSValues [] = True"
| "areJSValues (x # xs) = (isJSValue x \<and> areJSValues xs)"
| "areProperties [] = True"
| "areProperties ((k, v) # kvs) = (\<not> isArrayIndex k \<and> isJSValue v \<and> areProperties kvs)"

text \<open>Nested calls that suffice to read a value back, and what follows a value in a text.\<close>

fun fuelFor :: "json \<Rightarrow> nat"
  and fuelForElems :: "json list \<Rightarrow> nat"
  and fuelForMembers :: "(string \<times> json) list \<Rightarrow> nat" where
  "fuelFor (JArray xs) = Suc (fuelForElems xs)"
| "fuelFor (JObject kvs) = Suc (fuelForMembers kvs)"
| "fuelFor _ = 1"
| "fuelForElems [] = 0"
| "fuelForElems (x # xs) = Suc (fuelFor x + fuelForElems xs)"
| "fuelForMembers [] = 0"
| "fuelForMembers ((k, v) # kvs) = Suc (fuelFor v + fuelForMembers kvs)"

definition delimited :: "string \<Rightarrow> bool" where
  "delimited rest \<longleftrightarrow> (case rest of [] \<Rightarrow> True | c # _ \<Rightarrow> c = CHR '','' \<or> c = CHR 0x0A)"

definition opensValue :: "char \<Rightarrow> bool" where
  "opensValue c \<longleftrightarrow> \<not> isJSONWhiteSpace c \<and> c \<noteq> CHR '']'' \<and> c \<noteq> CHR ''}''"

text \<open>
  The files: a path holds a text that can be read and written, something that cannot be
  opened, or nothing. \<open>readJSONFile\<close> catches every exception of the read and of the
  parse; \<open>writeJSONFile\<close> lets the exception of the write through.
\<close>

datatype entry = Text string | Closed

type_synonym disk = "string \<Rightarrow> entry option"

definition fs_readFile :: "disk \<Rightarrow> string \<Rightarrow> exception + string" where
  "fs_readFile d p =
     (case d p of None \<Rightarrow> Inl ENOENT | Some Closed \<Rightarrow> Inl EACCES | Some (Text data) \<Rightarrow> Inr data)"

definition fs_writeFile :: "disk \<Rightarrow> string \<Rightarrow> string \<Rightarrow> exception + disk" where
  "fs_writeFile d p data =
     (case d p of Some Closed \<Rightarrow> Inl EACCES | _ \<Rightarrow> Inr (d(p \<mapsto> Text data)))"

definition readJSONFile :: "disk \<Rightarrow> string \<Rightarrow> json \<Rightarrow> exception + json" where
  "readJSONFile d filePath defaultValue =
     (case (case fs_readFile d filePath of Inl e \<Rightarrow> Inl e | Inr data \<Rightarrow> JSON_parse data) of
        Inl error \<Rightarrow> Inr defaultValue
      | Inr v \<Rightarrow> Inr v)"

definition writeJSONFile :: "disk \<Rightarrow> string \<Rightarrow> json \<Rightarrow> exception + disk" where
  "writeJSONFile d filePath data = fs_writeFile d filePath (JSON_stringify data)"

subsection \<open>Sequences of calls and example data\<close>






definition clock0 :: clock where
  "clock0 = \<lparr>now = 1700000000000, toISOString = ''2023-11-14T22:13:20.000Z'',
             toLocaleDateString = ''14/11/2023''\<rparr>"

definition ash :: student where
  "ash = \<lparr>student_id = 1, student_name = ''Ash'', pokemonType = ''Fire'', totalPoints = 95,
          student_createdAt = ''2023-11-01T10:00:00.000Z'', updatedAt = None\<rparr>"

definition quiz :: createdActivity where
  "quiz = \<lparr>activity_id = 7, activity_name = ''Quiz'', defaultPoints = 10, description = [],
           activity_createdAt = ''2023-11-01T09:00:00.000Z''\<rparr>"

definition store0 :: store where
  "store0 = \<lparr>students = [ash], activities = [], createdActivities = [quiz]\<rparr>"

definition misty :: student where
  "misty = \<lparr>student_id = 2, student_name = ''Misty'', pokemonType = ''Water'', totalPoints = 250,
            student_createdAt = ''2023-11-02T10:00:00.000Z'', updatedAt = None\<rparr>"

definition brock :: student where
  "brock = \<lparr>student_id = 3, student_name = ''Brock'', pokemonType = ''Fire'', totalPoints = 180,
            student_createdAt = ''2023-11-03T10:00:00.000Z'', updatedAt = None\<rparr>"

definition store1 :: store where
  "store1 = \<lparr>students = [ash, misty, brock], activities = [], createdActivities = [quiz]\<rparr>"

definition emptyStore :: store where
  "emptyStore = \<lparr>students = [], activities = [], createdActivities = []\<rparr>"

text \<open>What \<open>POST /api/students\<close> stores at \<open>clock0\<close> for the name \<open>'' Ash''\<close>.\<close>

definition paddedAsh :: student where
  "paddedAsh = \<lparr>student_id = 1700000000000, student_name = ''Ash'', pokemonType = ''Water'',
      totalPoints = 0, student_createdAt = ''2023-11-14T22:13:20.000Z'', updatedAt = None\<rparr>"

text \<open>Two students created within the same millisecond.\<close>

definition twin1 :: student where
  "twin1 = \<lparr>student_id = 1700000000000, student_name = ''Brock'', pokemonType = ''Rock'',
      totalPoints = 0, student_createdAt = ''2023-11-14T22:13:20.000Z'', updatedAt = None\<rparr>"

definition twin2 :: student where
  "twin2 = \<lparr>student_id = 1700000000000, student_name = ''Misty'', pokemonType = ''Water'',
      totalPoints = 0, student_createdAt = ''2023-11-14T22:13:20.000Z'', updatedAt = None\<rparr>"

definition twins :: store where
  "twins = \<lparr>students = [twin1, twin2], activities = [], createdActivities = []\<rparr>"

definition store2 :: store where
  "store2 = \<lparr>students = [ash, misty], activities = [], createdActivities = [quiz]\<rparr>"

text \<open>The students document as \<open>JSON.stringify\<close> sees it, and some files.\<close>

definition studentToJSON :: "student \<Rightarrow> json" where
  "studentToJSON s =
     JObject ([(''id'', JNumber (student_id s)), (''name'', JString (student_name s)),
               (''pokemonType'', JString (pokemonType s)),
               (''totalPoints'', JNumber (totalPoints s)),
               (''createdAt'', JString (student_createdAt s))]
              @ (case updatedAt s of None \<Rightarrow> [] | Some u \<Rightarrow> [(''updatedAt'', JString u)]))"

definition createdActivityToJSON :: "createdActivity \<Rightarrow> json" where
  "createdActivityToJSON a =
     JObject [(''id'', JNumber (activity_id a)), (''name'', JString (activity_name a)),
              (''defaultPoints'', JNumber (defaultPoints a)),
              (''description'', JString (description a)),
              (''createdAt'', JString (activity_createdAt a))]"

definition activityRecordToJSON :: "activityRecord \<Rightarrow> json" where
  "activityRecordToJSON r =
     JObject [(''id'', JNumber (record_id r)), (''studentId'', JNumber (studentId r)),
              (''activityId'', JNumber (activityId r)), (''name'', JString (record_name r)),
              (''points'', JNumber (points r)), (''date'', JString (date r)),
              (''createdAt'', JString (record_createdAt r))]"

definition disk0 :: disk where
  "disk0 = [''data/students.json'' \<mapsto> Text ''[7]'', ''data/activities.json'' \<mapsto> Text ''{oops'',
            ''data/created-activities.json'' \<mapsto> Closed]"




definition eve :: student where
  "eve = \<lparr>student_id = 4, student_name = ''Eve'', pokemonType = ''constructor'', totalPoints = 10,
          student_createdAt = ''2023-11-04T10:00:00.000Z'', updatedAt = None\<rparr>"

definition mallory :: student where
  "mallory = \<lparr>student_id = 5, student_name = ''Mallory'', pokemonType = ''__proto__'',
      totalPoints = 20, student_createdAt = ''2023-11-05T10:00:00.000Z'', updatedAt = None\<rparr>"

definition inheritedStore :: store where
  "inheritedStore = \<lparr>students = [eve, mallory], activities = [], createdActivities = []\<rparr>"

definition roundedStore :: store where
  "roundedStore =
     \<lparr>students = [ash\<lparr>totalPoints := 6755399441055745\<rparr>, misty\<lparr>totalPoints := 0\<rparr>,
                  brock\<lparr>totalPoints := 0\<rparr>],
      activities = [], createdActivities = []\<rparr>"

section \<open>Properties\<close>

subsection \<open>Searching an array\<close>


lemma findIndex_None: "findIndex P xs = None \<longleftrightarrow> find P xs = None"
  by (induction xs) (auto split: option.splits)


subsection \<open>Awards\<close>





subsection \<open>Creating a student\<close>

lemma find_Some_witness: "x \<in> set xs \<Longrightarrow> P x \<Longrightarrow> \<exists>y. find P xs = Some y"
  by (cases "find P xs") (auto simp: find_None_iff)

text \<open>
  The check for an existing student compares the name of the request as it came, and
  the name is trimmed only when the new student is built.
\<close>

lemma createStudent_conflict:
  assumes "name \<noteq> []" "ptype \<noteq> []" "s \<in> set (students st)"
    "toLowerCase (student_name s) = toLowerCase name"
  shows "createStudent clk (Some name) (Some ptype) st = (Inl Conflict, st)"
  using find_Some_witness[of s "students st"
      "\<lambda>s. toLowerCase (student_name s) = toLowerCase name"] assms
  by auto

text \<open>
  C1. A request whose name, once trimmed, matches a stored name without regard to case
  should be answered with \<open>Conflict\<close> and leave the students as they are. With the
  student \<open>Ash\<close> stored, the request for \<open>'' Ash''\<close> is a success instead, and a second
  student named \<open>Ash\<close> is stored.
\<close>

theorem createStudent_padded_name:
  "toLowerCase (trim '' Ash'') = toLowerCase (student_name ash)
   \<and> createStudent clock0 (Some '' Ash'') (Some ''Water'') store0
       = (Inr paddedAsh, store0\<lparr>students := [ash, paddedAsh]\<rparr>)
   \<and> student_name paddedAsh = student_name ash"
  by code_simp

subsection \<open>Deleting by id\<close>

lemma filter_out_unique:
  assumes "distinct (map f xs)" "i \<in> f ` set xs"
  shows "\<exists>ys y zs. xs = ys @ y # zs \<and> f y = i \<and> filter (\<lambda>x. f x \<noteq> i) xs = ys @ zs"
proof -
  from assms(2) obtain y where y: "y \<in> set xs" "f y = i" by auto
  then obtain ys zs where xs: "xs = ys @ y # zs" by (auto dest: split_list)
  from assms(1) y xs have "\<forall>x\<in>set ys. f x \<noteq> i" "\<forall>x\<in>set zs. f x \<noteq> i"
    by (auto simp: image_iff)
  then have "filter (\<lambda>x. f x \<noteq> i) xs = ys @ zs"
    using y xs by (simp add: filter_id_conv)
  with xs y show ?thesis by blast
qed

lemma filter_length_same:
  "length (filter (\<lambda>x. f x \<noteq> i) xs) = length xs \<longleftrightarrow> i \<notin> f ` set xs"
proof -
  have "length (filter (\<lambda>x. f x \<noteq> i) xs) = length xs \<longleftrightarrow> filter (\<lambda>x. f x \<noteq> i) xs = xs"
    by (metis length_filter_less less_irrefl filter_True)
  then show ?thesis by (auto simp: filter_id_conv)
qed

text \<open>
  C5, as the code has it. For an id parameter that \<open>parseInt\<close> reads as \<open>i\<close>: when no
  record has the id \<open>i\<close> the answer is \<open>NotFound\<close> and the documents are unchanged; when
  some record has it, every record with the id \<open>i\<close> is removed and the other records
  stay, unchanged and in their order; when the ids of the document are distinct, that
  is exactly one record. The same holds of students and of created activities.
\<close>

theorem delete_by_id:
  assumes "parseInt idParam = Some i"
  shows "(i \<notin> student_id ` set (students st) \<longrightarrow> deleteStudent idParam st = (Inl NotFound, st))
     \<and> (i \<in> student_id ` set (students st) \<longrightarrow>
          deleteStudent idParam st
            = (Inr (), st\<lparr>students := filter (\<lambda>s. student_id s \<noteq> i) (students st)\<rparr>)
          \<and> (distinct (map student_id (students st)) \<longrightarrow>
               (\<exists>ys y zs. students st = ys @ y # zs \<and> student_id y = i
                  \<and> filter (\<lambda>s. student_id s \<noteq> i) (students st) = ys @ zs)))
     \<and> (i \<notin> activity_id ` set (createdActivities st) \<longrightarrow>
          deleteActivity idParam st = (Inl NotFound, st))
     \<and> (i \<in> activity_id ` set (createdActivities st) \<longrightarrow>
          deleteActivity idParam st
            = (Inr (), st\<lparr>createdActivities :=
                             filter (\<lambda>a. activity_id a \<noteq> i) (createdActivities st)\<rparr>)
          \<and> (distinct (map activity_id (createdActivities st)) \<longrightarrow>
               (\<exists>ys y zs. createdActivities st = ys @ y # zs \<and> activity_id y = i
                  \<and> filter (\<lambda>a. activity_id a \<noteq> i) (createdActivities st) = ys @ zs)))"
  using assms filter_length_same[of student_id i "students st"]
    filter_length_same[of activity_id i "createdActivities st"]
    filter_out_unique[of student_id "students st" i]
    filter_out_unique[of activity_id "createdActivities st" i]
  by (simp add: deleteStudent_def deleteActivity_def Let_def)

theorem delete_by_id_witness:
  "parseInt ''1'' = Some 1
   \<and> deleteStudent ''1'' store0 = (Inr (), store0\<lparr>students := []\<rparr>)
   \<and> deleteActivity ''1'' store0 = (Inl NotFound, store0)
   \<and> (\<exists>ys y zs. students store0 = ys @ y # zs \<and> student_id y = 1
          \<and> filter (\<lambda>s. student_id s \<noteq> 1) (students store0) = ys @ zs)"
proof -
  have p: "parseInt ''1'' = Some 1" by code_simp
  have a: "(1::int) \<in> student_id ` set (students store0)"
    by (simp add: store0_def ash_def)
  have b: "(1::int) \<notin> activity_id ` set (createdActivities store0)"
    by (simp add: store0_def quiz_def)
  have d: "distinct (map student_id (students store0))"
    by (simp add: store0_def)
  have f: "filter (\<lambda>s. student_id s \<noteq> 1) (students store0) = []"
    by (simp add: store0_def ash_def)
  from delete_by_id[OF p, of store0] a b d f p show ?thesis by simp
qed

text \<open>
  Two students created at the same clock value share their id, and one delete removes
  both of them.
\<close>

theorem delete_twins_counterexample:
  "snd (createStudent clock0 (Some ''Misty'') (Some ''Water'')
         (snd (createStudent clock0 (Some ''Brock'') (Some ''Rock'') emptyStore))) = twins
   \<and> length (students twins) = 2
   \<and> deleteStudent ''1700000000000'' twins = (Inr (), emptyStore)
   \<and> length (students emptyStore) = 0"
  by code_simp

subsection \<open>Ranking\<close>

lemma sorted_sort_key_desc:
  "sorted_wrt (\<lambda>a b. totalPoints a \<ge> totalPoints b) (sort_key (\<lambda>s. - totalPoints s) xs)"
proof -
  have "sorted (map (\<lambda>s. - totalPoints s) (sort_key (\<lambda>s. - totalPoints s) xs))"
    by (rule sorted_sort_key)
  then show ?thesis by (simp add: sorted_map)
qed

lemma slice0_nonneg: "0 \<le> k \<Longrightarrow> slice0 xs (Some k) = take (nat k) xs"
  by (simp add: slice0_def)

text \<open>
  C4, as the code has it. For a category that is neither empty nor \<open>''all''\<close> and a
  limit that is read as \<open>n \<ge> 0\<close> (5 when the query has none): at most \<open>n\<close> students are
  returned, each is a stored student of exactly that category, they are in descending
  order of \<open>totalPoints\<close>, and \<open>total\<close> is the number of stored students of that category.
\<close>

theorem ranking_filtered:
  assumes "c \<noteq> []" "c \<noteq> ''all''"
    and "(case limit of None \<Rightarrow> Some 5 | Some l \<Rightarrow> parseInt l) = Some n" "0 \<le> n"
    and "ranking (Some c) limit st = (rs, tot)"
  shows "int (length rs) \<le> n
     \<and> (\<forall>s \<in> set rs. pokemonType s = c \<and> s \<in> set (students st))
     \<and> sorted_wrt (\<lambda>a b. totalPoints a \<ge> totalPoints b) rs
     \<and> tot = length (filter (\<lambda>s. pokemonType s = c) (students st))"
proof -
  let ?f = "filter (\<lambda>s. pokemonType s = c) (students st)"
  let ?s = "sort_key (\<lambda>s. - totalPoints s) ?f"
  from assms have rs: "rs = take (nat n) ?s" and tot: "tot = length ?f"
    by (simp_all add: ranking_def slice0_nonneg Let_def)
  have 1: "int (length rs) \<le> n" using rs assms(4) by simp
  have "set rs \<subseteq> set ?s" unfolding rs by (rule set_take_subset)
  then have 2: "\<forall>s \<in> set rs. pokemonType s = c \<and> s \<in> set (students st)" by auto
  have 3: "sorted_wrt (\<lambda>a b. totalPoints a \<ge> totalPoints b) rs"
    unfolding rs by (rule sorted_wrt_take[OF sorted_sort_key_desc])
  from 1 2 3 tot show ?thesis by blast
qed

theorem ranking_filtered_witness:
  "ranking (Some ''Fire'') (Some ''2'') store1 = ([brock, ash], 2)
   \<and> parseInt ''2'' = Some 2
   \<and> int (length [brock, ash]) \<le> 2
   \<and> pokemonType brock = ''Fire'' \<and> pokemonType ash = ''Fire''
   \<and> brock \<in> set (students store1) \<and> ash \<in> set (students store1)
   \<and> totalPoints brock \<ge> totalPoints ash
   \<and> length (filter (\<lambda>s. pokemonType s = ''Fire'') (students store1)) = 2"
proof -
  have r: "ranking (Some ''Fire'') (Some ''2'') store1 = ([brock, ash], 2)" by code_simp
  have p: "(case Some ''2'' of None \<Rightarrow> Some 5 | Some l \<Rightarrow> parseInt l) = Some 2" by code_simp
  have q: "parseInt ''2'' = Some 2" by code_simp
  from ranking_filtered[OF _ _ p _ r] r q show ?thesis by simp
qed

text \<open>
  The filter \<open>''all''\<close> returns students of other categories, and the limit \<open>-1\<close>
  returns all students of the category but the last one.
\<close>

theorem ranking_counterexample:
  "ranking (Some ''all'') (Some ''5'') store1 = ([misty, brock, ash], 3)
   \<and> pokemonType misty \<noteq> ''all''
   \<and> ranking (Some ''Fire'') (Some ''-1'') store1 = ([brock], 2)
   \<and> parseInt ''-1'' = Some (- 1) \<and> \<not> int (length [brock]) \<le> - 1"
  by code_simp

text \<open>
  C9. The category \<open>''all''\<close> skips the filter: the list and the total are those of the
  query without a category, for every limit and every stored state.
\<close>

theorem ranking_all: "ranking (Some ''all'') limit st = ranking None limit st"
  by (simp add: ranking_def)

subsection \<open>Responses that are errors\<close>

lemma createStudent_error: "createStudent clk n t st = (Inl e, st') \<Longrightarrow> st' = st"
  by (cases n; cases t) (auto simp: Let_def split: if_splits option.splits)

lemma updateStudent_error: "updateStudent clk i p st = (Inl e, st') \<Longrightarrow> st' = st"
  by (auto simp: updateStudent_def Let_def split: if_splits option.splits)

lemma deleteStudent_error: "deleteStudent i st = (Inl e, st') \<Longrightarrow> st' = st"
  by (auto simp: deleteStudent_def Let_def split: if_splits option.splits)

lemma createActivity_error: "createActivity clk n p d st = (Inl e, st') \<Longrightarrow> st' = st"
  by (cases n; cases p) (auto simp: Let_def split: if_splits option.splits)

lemma deleteActivity_error: "deleteActivity i st = (Inl e, st') \<Longrightarrow> st' = st"
  by (auto simp: deleteActivity_def Let_def split: if_splits option.splits)

lemma awardPoints_error: "awardPoints clk s a p st = (Inl e, st') \<Longrightarrow> st' = st"
  by (cases s; cases a; cases p) (auto simp: Let_def split: if_splits option.splits)

lemma reply_with_error:
  "reply_with f r = (Inl e, st') \<Longrightarrow> r = (Inl e, st')"
  by (cases r; cases "fst r") (auto simp: reply_with_def)

text \<open>
  C10. Whatever the request, a response that is \<open>InvalidArgument\<close>, \<open>Conflict\<close> or
  \<open>NotFound\<close> leaves the three stored documents as they were.
\<close>

theorem errors_keep_documents:
  assumes "handle clk req st = (Inl e, st')"
    and "e = InvalidArgument \<or> e = Conflict \<or> e = NotFound"
  shows "st' = st \<and> students st' = students st \<and> activities st' = activities st
     \<and> createdActivities st' = createdActivities st"
proof -
  have "st' = st"
    using assms(1)
    by (cases req)
       (auto dest!: reply_with_error
             dest: createStudent_error updateStudent_error deleteStudent_error
                   createActivity_error deleteActivity_error awardPoints_error
             split: sum.splits)
  then show ?thesis by simp
qed

theorem errors_keep_documents_witness:
  "handle clock0 (PostStudents None (Some ''Fire'')) store0 = (Inl InvalidArgument, store0)
   \<and> handle clock0 (PostStudents (Some ''ASH'') (Some ''Fire'')) store0 = (Inl Conflict, store0)
   \<and> handle clock0 (DeleteStudent ''99'') store0 = (Inl NotFound, store0)"
proof -
  have c: "createStudent clock0 (Some ''ASH'') (Some ''Fire'') store0 = (Inl Conflict, store0)"
    by code_simp
  have d: "deleteStudent ''99'' store0 = (Inl NotFound, store0)"
    by code_simp
  have 1: "handle clock0 (PostStudents None (Some ''Fire'')) store0 = (Inl InvalidArgument, store0)"
    by (simp add: reply_with_def)
  have 2: "handle clock0 (PostStudents (Some ''ASH'') (Some ''Fire'')) store0 = (Inl Conflict, store0)"
    by (simp only: handle.simps c) (simp add: reply_with_def)
  have 3: "handle clock0 (DeleteStudent ''99'') store0 = (Inl NotFound, store0)"
    by (simp only: handle.simps d) (simp add: reply_with_def)
  from errors_keep_documents[OF 1] errors_keep_documents[OF 2] errors_keep_documents[OF 3]
    1 2 3
  show ?thesis by simp
qed

subsection \<open>The document store\<close>

declare digits.simps [simp del]

lemma of_char_digitChar: "d < 10 \<Longrightarrow> (of_char (digitChar d) :: nat) = 48 + d"
  by (simp add: digitChar_def)

lemma isDigit_digitChar: "d < 10 \<Longrightarrow> isDigit (digitChar d)"
  by (simp add: isDigit_def of_char_digitChar)

lemma digits_nonempty: "digits n \<noteq> []"
  by (subst digits.simps) simp

lemma digits_all: "c \<in> set (digits n) \<Longrightarrow> isDigit c"
proof (induction n arbitrary: c rule: digits.induct)
  case (1 n)
  then show ?case
    by (subst (asm) (2) digits.simps) (auto simp: isDigit_digitChar split: if_splits)
qed

lemma readDigits_snoc: "readDigits (ds @ [c]) = readDigits ds * 10 + ((of_char c :: nat) - 48)"
  by (simp add: readDigits_def)

lemma readDigits_digits: "readDigits (digits n) = n"
proof (induction n rule: digits.induct)
  case (1 n)
  show ?case
  proof (cases "n < 10")
    case True
    then show ?thesis
      by (subst digits.simps) (simp add: readDigits_def of_char_digitChar)
  next
    case False
    with 1 show ?thesis
      by (subst digits.simps) (simp add: readDigits_snoc of_char_digitChar)
  qed
qed

lemma digitChar_0: "digitChar 0 = CHR ''0''"
  by code_simp

lemma digitChar_zero:
  assumes "d < 10"
  shows "digitChar d = CHR ''0'' \<longleftrightarrow> d = 0"
proof
  assume "digitChar d = CHR ''0''"
  then have "(of_char (digitChar d) :: nat) = of_char (CHR ''0'')" by simp
  with of_char_digitChar[OF assms] show "d = 0" by simp
next
  assume "d = 0"
  then show "digitChar d = CHR ''0''" by (simp add: digitChar_0)
qed

lemma hd_digits: "n \<noteq> 0 \<Longrightarrow> hd (digits n) \<noteq> CHR ''0''"
proof (induction n rule: digits.induct)
  case (1 n)
  show ?case
  proof (cases "n < 10")
    case True
    with 1(2) show ?thesis
      by (subst digits.simps) (simp add: digitChar_zero)
  next
    case False
    then have "n div 10 \<noteq> 0" by simp
    with 1(1) False have "hd (digits (n div 10)) \<noteq> CHR ''0''" by simp
    with False show ?thesis
      by (subst digits.simps) (simp add: digits_nonempty)
  qed
qed

lemma digits_zero: "digits 0 = ''0''"
  by (subst digits.simps) (simp add: digitChar_0)

lemma no_leading_zero: "\<not> (hd (digits n) = CHR ''0'' \<and> length (digits n) > 1)"
  by (cases "n = 0") (simp_all add: digits_zero hd_digits)

lemma delimited_takeWhile: "delimited rest \<Longrightarrow> takeWhile isDigit rest = []"
  by (cases rest) (auto simp: delimited_def isDigit_def)

lemma delimited_dropWhile: "delimited rest \<Longrightarrow> dropWhile isDigit rest = rest"
  by (cases rest) (auto simp: delimited_def isDigit_def)

lemma takeWhile_digits: "delimited rest \<Longrightarrow> takeWhile isDigit (digits n @ rest) = digits n"
  by (simp add: takeWhile_append2 digits_all delimited_takeWhile)

lemma dropWhile_digits: "delimited rest \<Longrightarrow> dropWhile isDigit (digits n @ rest) = rest"
  by (simp add: dropWhile_append2 digits_all delimited_dropWhile)

lemma hd_digits_not_minus: "hd (digits n) \<noteq> CHR ''-''"
proof -
  have "hd (digits n) \<in> set (digits n)" by (simp add: digits_nonempty)
  then have "isDigit (hd (digits n))" by (rule digits_all)
  then show ?thesis by (auto simp: isDigit_def)
qed

lemma parseNumber_digits:
  assumes "delimited rest"
  shows "parseNumber (digits n @ rest) = Some (JNumber (int n), rest)"
proof -
  obtain c cs where d: "digits n = c # cs" using digits_nonempty[of n] by (cases "digits n") auto
  with hd_digits_not_minus[of n] have c: "c \<noteq> CHR ''-''" by simp
  have nl: "\<not> (hd (digits n) = CHR ''0'' \<and> length (digits n) > 1)" by (rule no_leading_zero)
  have r: "\<not> (case rest of c # _ \<Rightarrow> c = CHR ''.'' \<or> c = CHR ''e'' \<or> c = CHR ''E'' | [] \<Rightarrow> False)"
    using assms by (cases rest) (auto simp: delimited_def)
  have neg: "(case digits n @ rest of c # _ \<Rightarrow> c = CHR ''-'' | [] \<Rightarrow> False) = False"
    using d c by simp
  show ?thesis
    unfolding parseNumber_def neg Let_def
    using nl r by (simp add: takeWhile_digits[OF assms] dropWhile_digits[OF assms] digits_nonempty readDigits_digits)
qed

lemma parseNumber_numberToString:
  assumes "delimited rest"
  shows "parseNumber (numberToString i @ rest) = Some (JNumber i, rest)"
proof (cases "i < 0")
  case False
  then show ?thesis
    using parseNumber_digits[OF assms, of "nat i"] by (simp add: numberToString_def)
next
  case True
  have nl: "\<not> (hd (digits (nat (- i))) = CHR ''0'' \<and> length (digits (nat (- i))) > 1)"
    by (rule no_leading_zero)
  have r: "\<not> (case rest of c # _ \<Rightarrow> c = CHR ''.'' \<or> c = CHR ''e'' \<or> c = CHR ''E'' | [] \<Rightarrow> False)"
    using assms by (cases rest) (auto simp: delimited_def)
  from True show ?thesis
    unfolding parseNumber_def numberToString_def Let_def
    using nl r
    by (simp add: takeWhile_digits[OF assms] dropWhile_digits[OF assms] digits_nonempty readDigits_digits)
qed

lemma digitValue_hexChar: "d < 16 \<Longrightarrow> digitValue (hexChar d) = Some d"
  by (auto simp: digitValue_def hexChar_def Let_def)

lemma digitValue_0: "digitValue (CHR ''0'') = Some 0"
  by (simp add: digitValue_def)

lemma parseString_u:
  assumes "digitValue a = Some ha" "digitValue b = Some hb" "digitValue x = Some hx"
    "digitValue y = Some hy" "((ha * 16 + hb) * 16 + hx) * 16 + hy = n" "n < 256"
  shows "parseString (CHR 0x5C # CHR ''u'' # a # b # x # y # t) = consResult (char_of n) (parseString t)"
  using assms by (simp add: Let_def)

lemma parseString_escapeChar: "parseString (escapeChar c @ t) = consResult c (parseString t)"
proof -
  let ?n = "of_char c :: nat"
  consider (quote) "c = CHR 0x22" | (bs) "c = CHR 0x5C" | (b) "c = CHR 0x08" | (f) "c = CHR 0x0C"
    | (n) "c = CHR 0x0A" | (r) "c = CHR 0x0D" | (t) "c = CHR 0x09"
    | (ctl) "c \<noteq> CHR 0x22" "c \<noteq> CHR 0x5C" "c \<noteq> CHR 0x08" "c \<noteq> CHR 0x0C" "c \<noteq> CHR 0x0A"
        "c \<noteq> CHR 0x0D" "c \<noteq> CHR 0x09" "?n < 32"
    | (plain) "c \<noteq> CHR 0x22" "c \<noteq> CHR 0x5C" "c \<noteq> CHR 0x08" "c \<noteq> CHR 0x0C" "c \<noteq> CHR 0x0A"
        "c \<noteq> CHR 0x0D" "c \<noteq> CHR 0x09" "\<not> ?n < 32"
    by blast
  then show ?thesis
  proof cases
    case ctl
    have v: "((0 * 16 + 0) * 16 + ?n div 16) * 16 + ?n mod 16 = ?n" by simp
    have lt: "?n < 256" using ctl(8) by simp
    have d1: "digitValue (hexChar (?n div 16)) = Some (?n div 16)"
      using ctl(8) by (intro digitValue_hexChar) simp
    have d2: "digitValue (hexChar (?n mod 16)) = Some (?n mod 16)"
      by (intro digitValue_hexChar) simp
    have "escapeChar c = [CHR 0x5C, CHR ''u'', CHR ''0'', CHR ''0'', hexChar (?n div 16), hexChar (?n mod 16)]"
      using ctl by (simp add: escapeChar_def)
    then show ?thesis
      using parseString_u[OF digitValue_0 digitValue_0 d1 d2 v lt, of t] by simp
  next
    case plain
    then show ?thesis by (simp add: escapeChar_def)
  qed (simp_all add: escapeChar_def unescape_def)
qed

lemma parseString_escaped:
  "parseString (concat (map escapeChar s) @ CHR 0x22 # rest) = Some (s, rest)"
  by (induction s) (simp_all add: parseString_escapeChar consResult_def)

lemma parseValue_quoted_aux:
  "quoteJSONString s @ rest = CHR 0x22 # concat (map escapeChar s) @ CHR 0x22 # rest"
  by (simp add: quoteJSONString_def)

lemma setProperty_new: "fst kv \<notin> fst ` set ps \<Longrightarrow> setProperty ps kv = ps @ [kv]"
  by (induction ps) auto

lemma foldl_setProperty:
  "distinct (map fst (ps @ kvs)) \<Longrightarrow> foldl setProperty ps kvs = ps @ kvs"
proof (induction kvs arbitrary: ps)
  case Nil
  then show ?case by simp
next
  case (Cons kv kvs)
  from Cons.prems have new: "fst kv \<notin> fst ` set ps" by auto
  from Cons.prems have "distinct (map fst ((ps @ [kv]) @ kvs))" by simp
  from Cons.IH[OF this] show ?case by (simp add: setProperty_new[OF new])
qed

lemma buildObject_distinct: "distinct (map fst kvs) \<Longrightarrow> buildObject kvs = kvs"
  using foldl_setProperty[of "[]" kvs] by (simp add: buildObject_def)

lemma skip_newline: "skipWhiteSpace (newline n @ s) = skipWhiteSpace s"
  by (simp add: skipWhiteSpace_def newline_def isJSONWhiteSpace_def dropWhile_append)

lemma skip_white:
  "\<forall>c \<in> set w. isJSONWhiteSpace c \<Longrightarrow> skipWhiteSpace (w @ s) = skipWhiteSpace s"
  by (simp add: skipWhiteSpace_def dropWhile_append)

lemma skip_none: "\<not> isJSONWhiteSpace c \<Longrightarrow> skipWhiteSpace (c # s) = c # s"
  by (simp add: skipWhiteSpace_def)

declare parseValue.simps [simp del] parseElems.simps [simp del] parseMembers.simps [simp del]

lemma parseValue_array_empty:
  "skipWhiteSpace s = CHR ''['' # r \<Longrightarrow> skipWhiteSpace r = CHR '']'' # r1 \<Longrightarrow>
   parseValue (Suc f) s = Some (JArray [], r1)"
  by (simp add: parseValue.simps)

lemma parseValue_array:
  "skipWhiteSpace s = CHR ''['' # r \<Longrightarrow> skipWhiteSpace r = c1 # r1 \<Longrightarrow> c1 \<noteq> CHR '']'' \<Longrightarrow>
   parseValue (Suc f) s =
     (case parseElems f r of None \<Rightarrow> None | Some (xs, t) \<Rightarrow> Some (JArray xs, t))"
  by (simp add: parseValue.simps)

lemma parseValue_object_empty:
  "skipWhiteSpace s = CHR ''{'' # r \<Longrightarrow> skipWhiteSpace r = CHR ''}'' # r1 \<Longrightarrow>
   parseValue (Suc f) s = Some (JObject [], r1)"
  by (simp add: parseValue.simps)

lemma parseValue_object:
  "skipWhiteSpace s = CHR ''{'' # r \<Longrightarrow> skipWhiteSpace r = c1 # r1 \<Longrightarrow> c1 \<noteq> CHR ''}'' \<Longrightarrow>
   parseValue (Suc f) s =
     (case parseMembers f r of None \<Rightarrow> None | Some (kvs, t) \<Rightarrow> Some (JObject (buildObject kvs), t))"
  by (simp add: parseValue.simps)

lemma parseValue_string:
  "skipWhiteSpace s = CHR 0x22 # r \<Longrightarrow>
   parseValue (Suc f) s =
     (case parseString r of None \<Rightarrow> None | Some (str, t) \<Rightarrow> Some (JString str, t))"
  by (simp add: parseValue.simps)

lemma isDigit_not_punct:
  "isDigit c \<Longrightarrow> c \<noteq> CHR ''['' \<and> c \<noteq> CHR ''{'' \<and> c \<noteq> CHR 0x22 \<and> \<not> isJSONWhiteSpace c
     \<and> c \<noteq> CHR '']'' \<and> c \<noteq> CHR ''}''"
  by (auto simp: isDigit_def isJSONWhiteSpace_def)

lemma parseValue_number:
  "skipWhiteSpace s = c # r \<Longrightarrow> c = CHR ''-'' \<or> isDigit c \<Longrightarrow>
   parseValue (Suc f) s = parseNumber (c # r)"
  using isDigit_not_punct[of c] by (auto simp: parseValue.simps)

lemma parseValue_null:
  "skipWhiteSpace s = ''null'' @ rest \<Longrightarrow> parseValue (Suc f) s = Some (JNull, rest)"
  by (simp add: parseValue.simps isDigit_def)

lemma parseValue_true:
  "skipWhiteSpace s = ''true'' @ rest \<Longrightarrow> parseValue (Suc f) s = Some (JBool True, rest)"
  by (simp add: parseValue.simps isDigit_def)

lemma parseValue_false:
  "skipWhiteSpace s = ''false'' @ rest \<Longrightarrow> parseValue (Suc f) s = Some (JBool False, rest)"
  by (simp add: parseValue.simps isDigit_def)

text \<open>The first character of a serialised value.\<close>

lemma numberToString_head:
  "\<exists>c cs. numberToString i = c # cs \<and> (c = CHR ''-'' \<or> isDigit c)"
proof (cases "i < 0")
  case True
  then show ?thesis by (simp add: numberToString_def)
next
  case False
  obtain c cs where d: "digits (nat i) = c # cs"
    using digits_nonempty[of "nat i"] by (cases "digits (nat i)") auto
  then have "isDigit c" using digits_all[of c "nat i"] by simp
  with d False show ?thesis by (simp add: numberToString_def)
qed

lemma stringify_head: "\<exists>c cs. stringify n v = c # cs \<and> opensValue c"
proof (cases v)
  case (JNumber i)
  from numberToString_head[of i] obtain c cs where
    h: "numberToString i = c # cs" "c = CHR ''-'' \<or> isDigit c" by blast
  then have "opensValue c"
    using isDigit_not_punct[of c] by (auto simp: opensValue_def isJSONWhiteSpace_def)
  with h JNumber show ?thesis by simp
qed (auto simp: opensValue_def isJSONWhiteSpace_def quoteJSONString_def)

lemma skip_to_value:
  assumes "\<forall>c \<in> set w. isJSONWhiteSpace c"
  shows "skipWhiteSpace (w @ stringify n v @ rest) = stringify n v @ rest"
proof -
  from stringify_head[of n v] obtain c cs where h: "stringify n v = c # cs" "opensValue c"
    by blast
  then show ?thesis
    using skip_white[OF assms, of "stringify n v @ rest"] by (simp add: skip_none opensValue_def)
qed

lemma delimited_simps:
  "delimited []" "delimited (CHR '','' # s)" "delimited (newline m @ s)"
  by (simp_all add: delimited_def newline_def)

lemma skip_comma: "skipWhiteSpace (CHR '','' # s) = CHR '','' # s"
  by (simp add: skip_none isJSONWhiteSpace_def)

lemma skip_close: "skipWhiteSpace (newline m @ CHR '']'' # s) = CHR '']'' # s"
  "skipWhiteSpace (newline m @ CHR ''}'' # s) = CHR ''}'' # s"
  by (simp_all add: skip_newline skip_none isJSONWhiteSpace_def)

lemma white_newline: "\<forall>c \<in> set (newline n). isJSONWhiteSpace c"
  by (auto simp: newline_def isJSONWhiteSpace_def)

lemma parseElems_stringify:
  assumes "\<And>x f w rest n. x \<in> set xs \<Longrightarrow> isJSValue x \<Longrightarrow> fuelFor x \<le> f \<Longrightarrow>
             \<forall>c \<in> set w. isJSONWhiteSpace c \<Longrightarrow> delimited rest \<Longrightarrow>
             parseValue f (w @ stringify n x @ rest) = Some (x, rest)"
    and "xs \<noteq> []" "areJSValues xs" "fuelForElems xs \<le> f"
  shows "parseElems f (newline n @ stringifyElems n xs @ newline m @ CHR '']'' # rest) = Some (xs, rest)"
  using assms
proof (induction xs arbitrary: f)
  case Nil
  then show ?case by simp
next
  case (Cons x xs)
  from Cons.prems(4) obtain f' where f: "f = Suc f'" "fuelFor x \<le> f'" "fuelForElems xs \<le> f'"
    by (cases f) auto
  let ?tail = "newline m @ CHR '']'' # rest"
  let ?REST = "(if xs = [] then [] else CHR '','' # newline n @ stringifyElems n xs) @ ?tail"
  have d: "delimited ?REST" by (simp add: delimited_simps)
  have x: "isJSValue x" "areJSValues xs" using Cons.prems(3) by simp_all
  have pv: "parseValue f' (newline n @ stringify n x @ ?REST) = Some (x, ?REST)"
    by (rule Cons.prems(1)[OF _ x(1) f(2) white_newline d]) simp
  have s: "newline n @ stringifyElems n (x # xs) @ ?tail = newline n @ stringify n x @ ?REST"
    by simp
  show ?case
  proof (cases "xs = []")
    case True
    then show ?thesis
      unfolding s f(1) using pv by (simp add: parseElems.simps skip_close)
  next
    case False
    have IH: "parseElems f' (newline n @ stringifyElems n xs @ ?tail) = Some (xs, rest)"
      by (rule Cons.IH[OF _ False x(2) f(3)]) (rule Cons.prems(1), auto)
    from False show ?thesis
      unfolding s f(1) using pv IH by (simp add: parseElems.simps skip_comma consResult_def)
  qed
qed

lemma skip_to_key: "skipWhiteSpace (newline n @ quoteJSONString k @ s) = quoteJSONString k @ s"
  by (simp add: skip_newline quoteJSONString_def skip_none isJSONWhiteSpace_def)

lemma parseMembers_step:
  assumes "parseValue f (CHR '' '' # stringify n v @ REST) = Some (v, REST)"
  shows "parseMembers (Suc f) (newline n @ quoteJSONString k @ '': '' @ stringify n v @ REST) =
     (case skipWhiteSpace REST of
        [] \<Rightarrow> None
      | c2 # u1 \<Rightarrow>
          if c2 = CHR '','' then consResult (k, v) (parseMembers f u1)
          else if c2 = CHR ''}'' then Some ([(k, v)], u1)
          else None)"
proof -
  have a: "skipWhiteSpace (newline n @ quoteJSONString k @ '': '' @ stringify n v @ REST)
      = CHR 0x22 # concat (map escapeChar k) @ CHR 0x22 # '': '' @ stringify n v @ REST"
    using skip_to_key[of n k "'': '' @ stringify n v @ REST"] by (simp add: quoteJSONString_def)
  have b: "skipWhiteSpace ('': '' @ stringify n v @ REST) = CHR '':'' # CHR '' '' # stringify n v @ REST"
    by (simp add: skip_none isJSONWhiteSpace_def)
  show ?thesis
    by (simp only: parseMembers.simps a list.case if_True parseString_escaped option.case
          prod.case b assms simp_thms)
qed

lemma parseMembers_stringify:
  assumes "\<And>k v f w rest n. (k, v) \<in> set kvs \<Longrightarrow> isJSValue v \<Longrightarrow> fuelFor v \<le> f \<Longrightarrow>
             \<forall>c \<in> set w. isJSONWhiteSpace c \<Longrightarrow> delimited rest \<Longrightarrow>
             parseValue f (w @ stringify n v @ rest) = Some (v, rest)"
    and "kvs \<noteq> []" "areProperties kvs" "fuelForMembers kvs \<le> f"
  shows "parseMembers f (newline n @ stringifyMembers n kvs @ newline m @ CHR ''}'' # rest) = Some (kvs, rest)"
  using assms
proof (induction kvs arbitrary: f)
  case Nil
  then show ?case by simp
next
  case (Cons kv kvs)
  obtain k v where kv: "kv = (k, v)" by (cases kv)
  from Cons.prems(4) kv obtain f' where
    f: "f = Suc f'" "fuelFor v \<le> f'" "fuelForMembers kvs \<le> f'"
    by (cases f) auto
  let ?tail = "newline m @ CHR ''}'' # rest"
  let ?REST = "(if kvs = [] then [] else CHR '','' # newline n @ stringifyMembers n kvs) @ ?tail"
  have d: "delimited ?REST" by (simp add: delimited_simps)
  have x: "isJSValue v" "areProperties kvs" using Cons.prems(3) kv by simp_all
  have "parseValue f' ([CHR '' ''] @ stringify n v @ ?REST) = Some (v, ?REST)"
    by (rule Cons.prems(1)[of k v, OF _ x(1) f(2) _ d]) (simp_all add: kv isJSONWhiteSpace_def)
  then have pv: "parseValue f' (CHR '' '' # stringify n v @ ?REST) = Some (v, ?REST)" by simp
  have s: "newline n @ stringifyMembers n (kv # kvs) @ ?tail
      = newline n @ quoteJSONString k @ '': '' @ stringify n v @ ?REST"
    by (simp add: kv)
  show ?case
  proof (cases "kvs = []")
    case True
    then show ?thesis
      unfolding s f(1) parseMembers_step[OF pv] by (simp add: skip_close kv)
  next
    case False
    have IH: "parseMembers f' (newline n @ stringifyMembers n kvs @ ?tail) = Some (kvs, rest)"
      by (rule Cons.IH[OF _ False x(2) f(3)]) (rule Cons.prems(1), auto)
    from False show ?thesis
      unfolding s f(1) parseMembers_step[OF pv] using IH
      by (simp add: skip_comma consResult_def kv)
  qed
qed

lemma parseValue_stringify:
  "isJSValue v \<Longrightarrow> fuelFor v \<le> f \<Longrightarrow> \<forall>c \<in> set w. isJSONWhiteSpace c \<Longrightarrow> delimited rest \<Longrightarrow>
   parseValue f (w @ stringify n v @ rest) = Some (v, rest)"
proof (induction v arbitrary: f w rest n)
  case JNull
  then obtain f' where f: "f = Suc f'" by (cases f) auto
  from skip_to_value[OF JNull(3), of n JNull rest] show ?case
    unfolding f by (intro parseValue_null) simp
next
  case (JBool b)
  then obtain f' where f: "f = Suc f'" by (cases f) auto
  from skip_to_value[OF JBool(3), of n "JBool b" rest] show ?case
    unfolding f by (cases b) (simp_all add: parseValue_true parseValue_false)
next
  case (JNumber i)
  then obtain f' where f: "f = Suc f'" by (cases f) auto
  from numberToString_head[of i] obtain c cs where
    h: "numberToString i = c # cs" "c = CHR ''-'' \<or> isDigit c" by blast
  from skip_to_value[OF JNumber(3), of n "JNumber i" rest] h
  have "skipWhiteSpace (w @ stringify n (JNumber i) @ rest) = c # (cs @ rest)" by simp
  from parseValue_number[OF this h(2), of f'] h(1) parseNumber_numberToString[OF JNumber(4), of i]
  show ?case unfolding f by simp
next
  case (JString s)
  then obtain f' where f: "f = Suc f'" by (cases f) auto
  from skip_to_value[OF JString(3), of n "JString s" rest]
  have "skipWhiteSpace (w @ stringify n (JString s) @ rest)
      = CHR 0x22 # (concat (map escapeChar s) @ CHR 0x22 # rest)"
    by (simp add: quoteJSONString_def)
  from parseValue_string[OF this, of f'] show ?case
    unfolding f by (simp add: parseString_escaped)
next
  case (JArray xs)
  then obtain f' where f: "f = Suc f'" "fuelForElems xs \<le> f'" by (cases f) auto
  show ?case
  proof (cases "xs = []")
    case True
    from skip_to_value[OF JArray(4), of n "JArray xs" rest] True
    have "skipWhiteSpace (w @ stringify n (JArray xs) @ rest) = CHR ''['' # (CHR '']'' # rest)"
      by simp
    from parseValue_array_empty[OF this, of rest f'] True show ?thesis
      unfolding f by (simp add: skip_none isJSONWhiteSpace_def)
  next
    case False
    let ?r = "newline (Suc n) @ stringifyElems (Suc n) xs @ newline n @ CHR '']'' # rest"
    from skip_to_value[OF JArray(4), of n "JArray xs" rest] False
    have a: "skipWhiteSpace (w @ stringify n (JArray xs) @ rest) = CHR ''['' # ?r" by simp
    obtain x xs' where xs: "xs = x # xs'" using False by (cases xs) auto
    from stringify_head[of "Suc n" x] obtain c cs where
      h: "stringify (Suc n) x = c # cs" "opensValue c" by blast
    have b: "skipWhiteSpace ?r = c # (cs @ (if xs' = [] then [] else CHR '','' # newline (Suc n) @ stringifyElems (Suc n) xs') @ newline n @ CHR '']'' # rest)"
      using h by (simp add: skip_newline xs skip_none opensValue_def)
    have c: "c \<noteq> CHR '']''" using h(2) by (simp add: opensValue_def)
    have "parseElems f' ?r = Some (xs, rest)"
      by (rule parseElems_stringify[OF _ False _ f(2)]) (use JArray in auto)
    with parseValue_array[OF a b c, of f'] show ?thesis
      unfolding f by simp
  qed
next
  case (JObject kvs)
  then obtain f' where f: "f = Suc f'" "fuelForMembers kvs \<le> f'" by (cases f) auto
  show ?case
  proof (cases "kvs = []")
    case True
    from skip_to_value[OF JObject(4), of n "JObject kvs" rest] True
    have "skipWhiteSpace (w @ stringify n (JObject kvs) @ rest) = CHR ''{'' # (CHR ''}'' # rest)"
      by simp
    from parseValue_object_empty[OF this, of rest f'] True show ?thesis
      unfolding f by (simp add: skip_none isJSONWhiteSpace_def)
  next
    case False
    let ?r = "newline (Suc n) @ stringifyMembers (Suc n) kvs @ newline n @ CHR ''}'' # rest"
    from skip_to_value[OF JObject(4), of n "JObject kvs" rest] False
    have a: "skipWhiteSpace (w @ stringify n (JObject kvs) @ rest) = CHR ''{'' # ?r" by simp
    obtain k v kvs' where kvs: "kvs = (k, v) # kvs'" using False by (cases kvs) auto
    have b: "skipWhiteSpace ?r = CHR 0x22 # (concat (map escapeChar k) @ [CHR 0x22] @ '': '' @ stringify (Suc n) v @ (if kvs' = [] then [] else CHR '','' # newline (Suc n) @ stringifyMembers (Suc n) kvs') @ newline n @ CHR ''}'' # rest)"
      by (simp add: skip_newline kvs skip_none quoteJSONString_def isJSONWhiteSpace_def)
    have "parseMembers f' ?r = Some (kvs, rest)"
    proof (rule parseMembers_stringify[OF _ False _ f(2)])
      fix k v f w rest n
      assume "(k, v) \<in> set kvs" "isJSValue v" "fuelFor v \<le> f"
        "\<forall>c\<in>set w. isJSONWhiteSpace c" "delimited rest"
      then show "parseValue f (w @ stringify n v @ rest) = Some (v, rest)"
        by (intro JObject(1)[of "(k, v)" v]) auto
    next
      show "areProperties kvs" using JObject(2) by simp
    qed
    with parseValue_object[OF a b, of f'] JObject(2) show ?thesis
      unfolding f by (simp add: buildObject_distinct)
  qed
qed

lemma length_elems_ge:
  "length (stringifyElems n xs) \<le>
   length (stringify n x @ (if xs = [] then [] else CHR '','' # newline n @ stringifyElems n xs))"
  by simp

lemma fuelForElems_le:
  assumes "\<And>x n. x \<in> set xs \<Longrightarrow> Suc (fuelFor x) \<le> 2 * length (stringify n x)"
  shows "fuelForElems xs \<le> 2 * length (stringifyElems n xs)"
  using assms
proof (induction xs)
  case Nil
  then show ?case by simp
next
  case (Cons x xs)
  have a: "Suc (fuelFor x) \<le> 2 * length (stringify n x)" by (rule Cons.prems) simp
  have b: "fuelForElems xs \<le> 2 * length (stringifyElems n xs)"
    by (rule Cons.IH) (rule Cons.prems, simp)
  from a b show ?case by simp
qed

lemma fuelForMembers_le:
  assumes "\<And>k v n. (k, v) \<in> set kvs \<Longrightarrow> Suc (fuelFor v) \<le> 2 * length (stringify n v)"
  shows "fuelForMembers kvs \<le> 2 * length (stringifyMembers n kvs)"
  using assms
proof (induction kvs)
  case Nil
  then show ?case by simp
next
  case (Cons kv kvs)
  obtain k v where kv: "kv = (k, v)" by (cases kv)
  have a: "Suc (fuelFor v) \<le> 2 * length (stringify n v)" by (rule Cons.prems[of k]) (simp add: kv)
  have b: "fuelForMembers kvs \<le> 2 * length (stringifyMembers n kvs)"
  proof (rule Cons.IH)
    fix k v n
    assume "(k, v) \<in> set kvs"
    then show "Suc (fuelFor v) \<le> 2 * length (stringify n v)"
      by (intro Cons.prems[of k v]) simp
  qed
  from a b show ?case by (simp add: kv)
qed

lemma fuelFor_le: "Suc (fuelFor v) \<le> 2 * length (stringify n v)"
proof (induction v arbitrary: n)
  case (JNumber i)
  from numberToString_head[of i] obtain c cs where "numberToString i = c # cs" by blast
  then show ?case by simp
next
  case (JArray xs)
  have "fuelForElems xs \<le> 2 * length (stringifyElems (Suc n) xs)"
    by (rule fuelForElems_le) (rule JArray)
  then show ?case by simp
next
  case (JObject kvs)
  have "fuelForMembers kvs \<le> 2 * length (stringifyMembers (Suc n) kvs)"
    by (rule fuelForMembers_le) (rule JObject[of "(k, v)" v for k v], auto)
  then show ?case by simp
qed (simp_all add: quoteJSONString_def)

lemma JSON_parse_stringify:
  assumes "isJSValue v"
  shows "JSON_parse (JSON_stringify v) = Inr v"
proof -
  have "fuelFor v \<le> 2 * length (stringify 0 v) + 2"
    using fuelFor_le[of v 0] by simp
  from parseValue_stringify[OF assms this, of "[]" "[]" 0]
  have "parseValue (2 * length (stringify 0 v) + 2) (stringify 0 v) = Some (v, [])"
    by (simp add: delimited_def)
  then show ?thesis
    by (simp add: JSON_parse_def JSON_stringify_def skipWhiteSpace_def)
qed

lemma areJSValues_map: "(\<And>x. isJSValue (f x)) \<Longrightarrow> areJSValues (map f xs)"
  by (induction xs) simp_all

lemma not_index: "\<not> isDigit c \<Longrightarrow> \<not> isArrayIndex (c # cs)"
  by (simp add: isArrayIndex_def)

text \<open>The three stored documents are such values.\<close>

lemma documents_are_values:
  "isJSValue (JArray (map studentToJSON xs))"
  "isJSValue (JArray (map createdActivityToJSON ys))"
  "isJSValue (JArray (map activityRecordToJSON zs))"
proof -
  have "isJSValue (studentToJSON s)" for s
    by (cases "updatedAt s") (simp_all add: studentToJSON_def not_index isDigit_def)
  then show "isJSValue (JArray (map studentToJSON xs))" by (simp add: areJSValues_map)
  have "isJSValue (createdActivityToJSON a)" for a
    by (simp add: createdActivityToJSON_def not_index isDigit_def)
  then show "isJSValue (JArray (map createdActivityToJSON ys))" by (simp add: areJSValues_map)
  have "isJSValue (activityRecordToJSON r)" for r
    by (simp add: activityRecordToJSON_def not_index isDigit_def)
  then show "isJSValue (JArray (map activityRecordToJSON zs))" by (simp add: areJSValues_map)
qed

text \<open>
  C7. \<open>readJSONFile\<close> returns the parsed document when the file can be read and its
  text parses, and the default value when the file is missing, cannot be opened, or has
  a text that does not parse; in every case it returns and raises nothing.
\<close>

theorem readJSONFile_total:
  "(fs_readFile d p = Inr data \<and> JSON_parse data = Inr v \<longrightarrow> readJSONFile d p dv = Inr v)
   \<and> (d p = None \<longrightarrow> readJSONFile d p dv = Inr dv)
   \<and> (d p = Some Closed \<longrightarrow> readJSONFile d p dv = Inr dv)
   \<and> (fs_readFile d p = Inr data \<and> JSON_parse data = Inl e \<longrightarrow> readJSONFile d p dv = Inr dv)
   \<and> (\<exists>r. readJSONFile d p dv = Inr r)"
  by (auto simp: readJSONFile_def fs_readFile_def split: option.splits entry.splits sum.splits)

theorem readJSONFile_total_witness:
  "readJSONFile disk0 ''data/students.json'' (JArray []) = Inr (JArray [JNumber 7])
   \<and> readJSONFile disk0 ''data/missing.json'' (JArray []) = Inr (JArray [])
   \<and> readJSONFile disk0 ''data/created-activities.json'' (JArray []) = Inr (JArray [])
   \<and> readJSONFile disk0 ''data/activities.json'' (JArray []) = Inr (JArray [])"
proof -
  have r: "fs_readFile disk0 ''data/students.json'' = Inr ''[7]''"
    "fs_readFile disk0 ''data/activities.json'' = Inr ''{oops''"
    "disk0 ''data/missing.json'' = None"
    "disk0 ''data/created-activities.json'' = Some Closed"
    by (simp_all add: disk0_def fs_readFile_def)
  have p: "JSON_parse ''[7]'' = Inr (JArray [JNumber 7])" "JSON_parse ''{oops'' = Inl SyntaxError"
    by code_simp+
  from readJSONFile_total[of disk0 "''data/students.json''" "''[7]''" "JArray [JNumber 7]" "JArray []"]
    readJSONFile_total[of disk0 "''data/missing.json''" _ _ "JArray []"]
    readJSONFile_total[of disk0 "''data/created-activities.json''" _ _ "JArray []"]
    readJSONFile_total[of disk0 "''data/activities.json''" "''{oops''" _ "JArray []" SyntaxError]
    r p
  show ?thesis by simp
qed

text \<open>
  C8. A document that \<open>writeJSONFile\<close> has written to a path is what \<open>readJSONFile\<close>
  returns for that path, equal in every part, whatever the default value.
\<close>

theorem write_then_read:
  assumes "isJSValue v" and "writeJSONFile d p v = Inr d'"
  shows "readJSONFile d' p dv = Inr v"
proof -
  from assms(2) have "d' = d(p \<mapsto> Text (JSON_stringify v))"
    by (auto simp: writeJSONFile_def fs_writeFile_def split: option.splits entry.splits)
  then have "fs_readFile d' p = Inr (JSON_stringify v)"
    by (simp add: fs_readFile_def)
  then show ?thesis
    by (simp add: readJSONFile_def JSON_parse_stringify[OF assms(1)])
qed

theorem write_then_read_witness:
  "isJSValue (JArray [studentToJSON ash])
   \<and> writeJSONFile disk0 ''data/students.json'' (JArray [studentToJSON ash])
       = Inr (disk0(''data/students.json'' \<mapsto> Text (JSON_stringify (JArray [studentToJSON ash]))))
   \<and> readJSONFile
         (disk0(''data/students.json'' \<mapsto> Text (JSON_stringify (JArray [studentToJSON ash]))))
         ''data/students.json'' (JArray [])
       = Inr (JArray [studentToJSON ash])"
proof -
  have v: "isJSValue (JArray [studentToJSON ash])"
    using documents_are_values(1)[of "[ash]"] by simp
  have w: "writeJSONFile disk0 ''data/students.json'' (JArray [studentToJSON ash])
      = Inr (disk0(''data/students.json'' \<mapsto> Text (JSON_stringify (JArray [studentToJSON ash]))))"
    by (simp add: writeJSONFile_def fs_writeFile_def disk0_def)
  from write_then_read[OF v w, of "JArray []"] v w show ?thesis by simp
qed

subsection \<open>Rounding to binary64\<close>

declare bitLength.simps [simp del]

lemma bitLength_bounds:
  "0 < m \<Longrightarrow> 2 ^ (bitLength m - 1) \<le> m \<and> m < 2 ^ bitLength m"
proof (induction m rule: bitLength.induct)
  case (1 m)
  show ?case
  proof (cases "m = 1")
    case True
    then show ?thesis
      by (subst bitLength.simps, subst bitLength.simps, subst bitLength.simps,
          subst bitLength.simps) simp
  next
    case False
    with 1(2) have h: "0 < m div 2" by simp
    from 1(1) h 1(2) have IH: "2 ^ (bitLength (m div 2) - 1) \<le> m div 2" "m div 2 < 2 ^ bitLength (m div 2)"
      by simp_all
    have pos: "0 < bitLength (m div 2)"
      using h by (subst bitLength.simps) simp
    have b: "bitLength m = Suc (bitLength (m div 2))"
      using 1(2) by (subst bitLength.simps) simp
    have "2 ^ (bitLength m - 1) = (2::int) * 2 ^ (bitLength (m div 2) - 1)"
      using pos b by (cases "bitLength (m div 2)") simp_all
    also have "\<dots> \<le> 2 * (m div 2)" using IH(1) by simp
    also have "\<dots> \<le> m" by simp
    finally have lo: "2 ^ (bitLength m - 1) \<le> m" .
    have "m < 2 * (m div 2 + 1)" by simp
    also have "\<dots> \<le> 2 * 2 ^ bitLength (m div 2)" using IH(2) by simp
    finally have hi: "m < 2 ^ bitLength m" using b by simp
    from lo hi show ?thesis by simp
  qed
qed

lemma bitLength_pos: "0 < m \<Longrightarrow> 0 < bitLength m"
  by (subst bitLength.simps) simp

lemma exponent_bounds:
  assumes "0 < y"
  shows "2 powi binaryExponent y \<le> y" and "y < 2 powi (binaryExponent y + 1)"
proof -
  have "2 powi binaryExponent y \<le> y \<and> y < 2 powi (binaryExponent y + 1)"
  proof (cases "1 \<le> y")
    case True
    let ?m = "\<lfloor>y\<rfloor>"
    let ?b = "bitLength ?m"
    from True have m: "0 < ?m" by simp
    from bitLength_bounds[OF m] have lo: "2 ^ (?b - 1) \<le> ?m" and hi: "?m < 2 ^ ?b" by simp_all
    from bitLength_pos[OF m] have b: "0 < ?b" .
    have e: "binaryExponent y = int (?b - 1)" using True b by (simp add: binaryExponent_def)
    have e1: "binaryExponent y + 1 = int ?b" using e b by simp
    have "real_of_int (2 ^ (?b - 1)) \<le> real_of_int ?m" using lo by (simp only: of_int_le_iff)
    also have "\<dots> \<le> y" by simp
    finally have 1: "2 powi binaryExponent y \<le> y" unfolding e by simp
    have "?m + 1 \<le> 2 ^ ?b" using hi by simp
    then have "real_of_int (?m + 1) \<le> real_of_int (2 ^ ?b)" by (simp only: of_int_le_iff)
    then have up: "real_of_int ?m + 1 \<le> 2 ^ ?b" by simp
    have "y < real_of_int ?m + 1" by linarith
    with up have "y < 2 ^ ?b" by linarith
    then have 2: "y < 2 powi (binaryExponent y + 1)" unfolding e1 by simp
    from 1 2 show ?thesis by simp
  next
    case False
    let ?c = "\<lceil>1 / y\<rceil>"
    let ?b = "bitLength (?c - 1)"
    from False assms have inv: "1 < 1 / y" by simp
    then have c: "0 < ?c - 1" by (simp add: less_ceiling_iff)
    from bitLength_bounds[OF c] have lo: "2 ^ (?b - 1) \<le> ?c - 1" and hi: "?c - 1 < 2 ^ ?b"
      by simp_all
    from bitLength_pos[OF c] have b: "0 < ?b" .
    have e: "binaryExponent y = - int ?b" using False by (simp add: binaryExponent_def)
    have e1: "binaryExponent y + 1 = - int (?b - 1)" using e b by simp
    have "?c \<le> 2 ^ ?b" using hi by simp
    then have "real_of_int ?c \<le> real_of_int (2 ^ ?b)" by (simp only: of_int_le_iff)
    then have cr: "real_of_int ?c \<le> 2 ^ ?b" by (simp only: of_int_power of_int_numeral)
    have "1 / y \<le> real_of_int ?c" by (rule le_of_int_ceiling)
    with cr have "1 / y \<le> 2 ^ ?b" by linarith
    then have "1 \<le> 2 ^ ?b * y" using assms by (simp add: field_simps)
    then have 1: "2 powi binaryExponent y \<le> y"
      unfolding e by (simp add: power_int_minus field_simps)
    have "real_of_int (2 ^ (?b - 1)) \<le> real_of_int (?c - 1)" using lo by (simp only: of_int_le_iff)
    then have lr: "2 ^ (?b - 1) \<le> real_of_int ?c - 1"
      by (simp only: of_int_power of_int_numeral of_int_diff of_int_1)
    have "real_of_int ?c - 1 < 1 / y" by linarith
    with lr have "2 ^ (?b - 1) < 1 / y" by linarith
    then have "2 ^ (?b - 1) * y < 1" using assms by (simp add: field_simps)
    then have 2: "y < 2 powi (binaryExponent y + 1)"
      unfolding e1 by (simp add: power_int_minus field_simps)
    from 1 2 show ?thesis by simp
  qed
  then show "2 powi binaryExponent y \<le> y" and "y < 2 powi (binaryExponent y + 1)" by simp_all
qed

lemma ulp_powi: "ulp x = 2 powi (binaryExponent \<bar>x\<bar> - 52)"
proof (cases "52 \<le> binaryExponent \<bar>x\<bar>")
  case True
  then have "2 powi (binaryExponent \<bar>x\<bar> - 52) = (2::real) ^ nat (binaryExponent \<bar>x\<bar> - 52)"
    by (simp add: power_int_def)
  with True show ?thesis by (simp add: ulp_def Let_def)
next
  case False
  then have "2 powi (binaryExponent \<bar>x\<bar> - 52) = 1 / (2::real) ^ nat (52 - binaryExponent \<bar>x\<bar>)"
    by (simp add: power_int_def field_simps)
  with False show ?thesis by (simp add: ulp_def Let_def)
qed

lemma roundHalfEven_ge: "of_int a \<le> y \<Longrightarrow> a \<le> roundHalfEven y"
proof -
  assume "of_int a \<le> y"
  then have "a \<le> \<lfloor>y\<rfloor>" by (simp add: le_floor_iff)
  then show ?thesis by (simp add: roundHalfEven_def Let_def)
qed

lemma roundHalfEven_less: "y < of_int b - 1 / 2 \<Longrightarrow> roundHalfEven y < b"
proof -
  assume y: "y < of_int b - 1 / 2"
  have f: "of_int \<lfloor>y\<rfloor> \<le> y" by simp
  show ?thesis
  proof (cases "y - of_int \<lfloor>y\<rfloor> < 1 / 2")
    case True
    from f y have "real_of_int \<lfloor>y\<rfloor> < of_int b" by linarith
    then have "\<lfloor>y\<rfloor> < b" by (simp only: of_int_less_iff)
    with True show ?thesis by (simp add: roundHalfEven_def Let_def)
  next
    case False
    with y have "real_of_int (\<lfloor>y\<rfloor> + 1) < of_int b" by simp
    then have "\<lfloor>y\<rfloor> + 1 < b" by (simp only: of_int_less_iff)
    then show ?thesis by (auto simp: roundHalfEven_def Let_def)
  qed
qed

lemma roundHalfEven_of_int: "roundHalfEven (of_int k) = k"
  by (simp add: roundHalfEven_def)

lemma powi_less_imp: "(2::real) powi a < 2 powi b \<Longrightarrow> a < b"
proof (rule ccontr)
  assume l: "(2::real) powi a < 2 powi b" and "\<not> a < b"
  then have "b \<le> a" by simp
  then have "(2::real) powi b \<le> 2 powi a" by (intro power_int_increasing) simp_all
  with l show False by simp
qed

lemma binary64_of_int:
  assumes "\<bar>m\<bar> < 2 ^ 53"
  shows "binary64 (real_of_int m) = real_of_int m"
proof (cases "m = 0")
  case True
  then show ?thesis by (simp add: binary64_def)
next
  case False
  define e where "e = binaryExponent \<bar>real_of_int m\<bar>"
  have pos: "0 < \<bar>real_of_int m\<bar>" using False by simp
  have "2 powi e \<le> \<bar>real_of_int m\<bar>" unfolding e_def by (rule exponent_bounds(1)[OF pos])
  also have "\<bar>real_of_int m\<bar> < 2 ^ 53"
  proof -
    from assms have "real_of_int \<bar>m\<bar> < real_of_int (2 ^ 53)" by (simp only: of_int_less_iff)
    then show ?thesis by simp
  qed
  also have "(2::real) ^ 53 = 2 powi 53" by simp
  finally have "e < 53" by (rule powi_less_imp)
  then have e: "e \<le> 52" by simp
  define s where "s = nat (52 - e)"
  have u: "ulp (real_of_int m) = 1 / 2 ^ s"
    using e by (simp add: ulp_def Let_def e_def s_def)
  have "real_of_int m / ulp (real_of_int m) = real_of_int (m * 2 ^ s)"
    by (simp add: u)
  then have "roundHalfEven (real_of_int m / ulp (real_of_int m)) = m * 2 ^ s"
    by (simp only: roundHalfEven_of_int)
  then show ?thesis
    using False by (simp add: binary64_def u)
qed

lemma Math_round_binary64_quotient:
  assumes "\<bar>t\<bar> < 2 ^ 52" "0 < n"
  shows "Math_round (binary64 (real_of_int t / real n)) = Math_round (real_of_int t / real n)"
proof (cases "t = 0")
  case True
  then show ?thesis by (simp add: binary64_def)
next
  case False
  define x where "x = real_of_int t / real n"
  have n1: "1 \<le> real n" using assms(2) by simp
  have x0: "x \<noteq> 0" using False assms(2) by (simp add: x_def)
  have ax: "\<bar>x\<bar> = \<bar>real_of_int t\<bar> / real n" by (simp add: x_def)
  define e where "e = binaryExponent \<bar>x\<bar>"
  have lo: "2 powi e \<le> \<bar>x\<bar>" unfolding e_def using x0 by (intro exponent_bounds(1)) simp
  have t52: "\<bar>real_of_int t\<bar> < 2 ^ 52"
  proof -
    from assms(1) have "real_of_int \<bar>t\<bar> < real_of_int (2 ^ 52)" by (simp only: of_int_less_iff)
    then show ?thesis by simp
  qed
  have "\<bar>real_of_int t\<bar> * 1 \<le> \<bar>real_of_int t\<bar> * real n"
    using n1 by (intro mult_left_mono) simp_all
  then have "\<bar>x\<bar> \<le> \<bar>real_of_int t\<bar>"
    unfolding ax using assms(2) by (simp add: field_simps)
  with lo t52 have "2 powi e < (2::real) ^ 52" by linarith
  also have "(2::real) ^ 52 = 2 powi 52" by simp
  finally have "e < 52" by (rule powi_less_imp)
  then have e: "e \<le> 51" by simp
  define s where "s = nat (51 - e)"
  define P where "P = (2::real) ^ s"
  have P: "1 \<le> P" by (simp add: P_def)
  have Ppos: "0 < P" using P by linarith
  have u: "ulp x = 1 / (2 * P)"
  proof -
    have "nat (52 - e) = Suc s" using e by (simp add: s_def)
    then show ?thesis using e by (simp add: ulp_def Let_def e_def[symmetric] P_def)
  qed
  have pe: "2 powi e * (2 * P) = (2::real) ^ 52"
  proof -
    have "(2::real) powi e * 2 powi (52 - e) = 2 powi (e + (52 - e))"
      by (subst power_int_add) simp_all
    moreover have "(2::real) powi (52 - e) = 2 * P"
    proof -
      have "52 - e = int (Suc s)" using e by (simp add: s_def)
      then have "(2::real) powi (52 - e) = 2 powi int (Suc s)" by (simp only:)
      also have "\<dots> = 2 ^ Suc s" by (rule power_int_of_nat)
      finally show ?thesis by (simp add: P_def)
    qed
    ultimately show ?thesis by simp
  qed
  have nP: "real n < 2 * P"
  proof -
    from lo have "2 powi e * real n \<le> \<bar>real_of_int t\<bar>"
      unfolding ax using assms(2) by (simp add: field_simps)
    with t52 have "2 powi e * real n < 2 powi e * (2 * P)" unfolding pe by linarith
    then show ?thesis by (simp add: mult_less_cancel_left_pos)
  qed
  define k where "k = \<lfloor>x + 1 / 2\<rfloor>"
  have k1: "real_of_int k \<le> x + 1 / 2" and k2: "x + 1 / 2 < real_of_int k + 1"
    unfolding k_def by linarith+
  define X where "X = x * (2 * P)"
  have xu: "x / ulp x = X" by (simp add: u X_def)
  define A where "A = (2 * k - 1) * 2 ^ s"
  define B where "B = (2 * k + 1) * 2 ^ s"
  have A: "real_of_int A = (2 * real_of_int k - 1) * P" by (simp add: A_def P_def)
  have B: "real_of_int B = (2 * real_of_int k + 1) * P" by (simp add: B_def P_def)
  have AX: "real_of_int A \<le> X"
  proof -
    from k1 have "2 * real_of_int k - 1 \<le> 2 * x" by linarith
    then have "(2 * real_of_int k - 1) * P \<le> (2 * x) * P"
      using Ppos by (simp only: mult_le_cancel_right_pos)
    then show ?thesis by (simp add: A X_def mult_ac)
  qed
  have d: "1 \<le> (2 * k + 1) * int n - 2 * t"
  proof -
    from k2 have "2 * x < 2 * real_of_int k + 1" by linarith
    then have "2 * real_of_int t < (2 * real_of_int k + 1) * real n"
      using assms(2) by (simp add: x_def field_simps)
    then have "real_of_int (2 * t) < real_of_int ((2 * k + 1) * int n)" by simp
    then have "2 * t < (2 * k + 1) * int n" by (simp only: of_int_less_iff)
    then show ?thesis by simp
  qed
  have XB: "X < real_of_int B - 1 / 2"
  proof -
    define D where "D = (2 * real_of_int k + 1) - 2 * x"
    have xn: "x * real n = real_of_int t" using assms(2) by (simp add: x_def)
    from d have "real_of_int 1 \<le> real_of_int ((2 * k + 1) * int n - 2 * t)"
      by (simp only: of_int_le_iff)
    then have "1 \<le> (2 * real_of_int k + 1) * real n - 2 * real_of_int t" by simp
    also have "\<dots> = (2 * real_of_int k + 1) * real n - 2 * (x * real n)" by (simp only: xn)
    also have "\<dots> = D * real n" by (simp add: D_def algebra_simps)
    finally have Dn: "1 \<le> D * real n" .
    have a: "P \<le> (D * real n) * P"
    proof -
      have "1 * P \<le> (D * real n) * P" using Dn Ppos by (intro mult_right_mono) simp_all
      then show ?thesis by simp
    qed
    have b: "(1 / 2) * real n < P" using nP by simp
    have c: "(D * real n) * P = (D * P) * real n" by (simp add: mult_ac)
    from a b c have "(1 / 2) * real n < (D * P) * real n" by linarith
    then have "1 / 2 < D * P" using assms(2) by (simp only: mult_less_cancel_right_pos of_nat_0_less_iff)
    then show ?thesis by (simp add: B X_def D_def algebra_simps)
  qed
  define r where "r = roundHalfEven X"
  have rA: "A \<le> r" unfolding r_def by (rule roundHalfEven_ge[OF AX])
  have rB: "r < B" unfolding r_def by (rule roundHalfEven_less[OF XB])
  have b: "binary64 x = real_of_int r / (2 * P)"
  proof -
    have "binary64 x = ulp x * real_of_int (roundHalfEven (x / ulp x))"
      using x0 by (simp add: binary64_def)
    also have "\<dots> = (1 / (2 * P)) * real_of_int r" by (simp only: xu) (simp only: u r_def)
    finally show ?thesis by simp
  qed
  have lower: "real_of_int k \<le> binary64 x + 1 / 2"
  proof -
    from rA have "real_of_int A \<le> real_of_int r" by (simp only: of_int_le_iff)
    then have "(2 * real_of_int k - 1) * P \<le> real_of_int r" by (simp only: A)
    then have "(2 * real_of_int k - 1) / 2 \<le> real_of_int r / (2 * P)"
      using Ppos by (simp add: field_simps)
    then have "real_of_int k - 1 / 2 \<le> real_of_int r / (2 * P)"
      by (simp add: diff_divide_distrib)
    then show ?thesis unfolding b by linarith
  qed
  have upper: "binary64 x + 1 / 2 < real_of_int k + 1"
  proof -
    from rB have "real_of_int r < real_of_int B" by (simp only: of_int_less_iff)
    then have "real_of_int r < (2 * real_of_int k + 1) * P" by (simp only: B)
    then have "real_of_int r / (2 * P) < (2 * real_of_int k + 1) / 2"
      using Ppos by (simp add: field_simps)
    then have "real_of_int r / (2 * P) < real_of_int k + 1 / 2"
      by (simp add: add_divide_distrib)
    then show ?thesis unfolding b by linarith
  qed
  have "\<lfloor>binary64 x + 1 / 2\<rfloor> = k"
    using lower upper by (intro floor_unique) simp_all
  then show ?thesis by (simp add: Math_round_def k_def x_def)
qed

lemma abs_sum_list_le: "\<bar>sum_list (map f xs)\<bar> \<le> sum_list (map (\<lambda>x. \<bar>f x :: int\<bar>) xs)"
  by (induction xs) auto

lemma foldl_binary64_sum:
  "\<bar>a\<bar> + sum_list (map (\<lambda>s. \<bar>f s\<bar>) xs) < 2 ^ 53 \<Longrightarrow>
   foldl (\<lambda>sum s. binary64 (sum + real_of_int (f s))) (real_of_int a) xs
     = real_of_int (a + sum_list (map f xs))"
proof (induction xs arbitrary: a)
  case Nil
  then show ?case by simp
next
  case (Cons x xs)
  have "\<bar>a + f x\<bar> \<le> \<bar>a\<bar> + \<bar>f x\<bar>" by simp
  with Cons.prems have small: "\<bar>a + f x\<bar> < 2 ^ 53"
    and rest: "\<bar>a + f x\<bar> + sum_list (map (\<lambda>s. \<bar>f s\<bar>) xs) < 2 ^ 53"
    using sum_list_abs[of "map f xs"] by (simp_all add: comp_def) 
  have "binary64 (real_of_int a + real_of_int (f x)) = binary64 (real_of_int (a + f x))" by simp
  also have "\<dots> = real_of_int (a + f x)" by (rule binary64_of_int[OF small])
  finally have step: "binary64 (real_of_int a + real_of_int (f x)) = real_of_int (a + f x)" .
  show ?case
    by (simp only: foldl_Cons step Cons.IH[OF rest]) (simp add: algebra_simps)
qed

lemma round_div: 
  assumes "0 < n"
  shows "round (real_of_int t / real n) = (2 * t + int n) div (2 * int n)"
proof -
  have "real_of_int t / real n + 1 / 2 = real_of_int (2 * t + int n) / real_of_int (2 * int n)"
    using assms by (simp add: field_simps)
  then show ?thesis
    unfolding round_def by (simp only: floor_divide_of_int_eq)
qed

subsection \<open>Statistics\<close>

lemma countUp_other: "k \<noteq> j \<Longrightarrow> countUp m j k = m k"
  by (simp add: countUp_def split: option.splits tally.splits)

lemma countUp_same:
  "k \<notin> set inheritedNames \<Longrightarrow> k \<noteq> ''__proto__'' \<Longrightarrow>
   countUp m k k =
     (case m k of None \<Rightarrow> Some (Count 1) | Some (Count c) \<Rightarrow> Some (Count (c + 1))
      | Some Concatenation \<Rightarrow> Some Concatenation)"
  by (simp add: countUp_def split: option.splits tally.splits)

lemma foldl_countUp:
  assumes "k \<notin> set inheritedNames" "k \<noteq> ''__proto__''"
  shows "foldl (\<lambda>counts s. countUp counts (f s)) m xs k =
     (let n = length (filter (\<lambda>s. f s = k) xs) in
      case m k of
        None \<Rightarrow> (if n = 0 then None else Some (Count n))
      | Some (Count c) \<Rightarrow> Some (Count (c + n))
      | Some Concatenation \<Rightarrow> Some Concatenation)"
proof (induction xs arbitrary: m)
  case Nil
  then show ?case by (simp split: option.splits tally.splits)
next
  case (Cons x xs)
  have "foldl (\<lambda>counts s. countUp counts (f s)) m (x # xs) k
      = foldl (\<lambda>counts s. countUp counts (f s)) (countUp m (f x)) xs k"
    by (simp only: foldl_Cons)
  also have "\<dots> = (let n = length (filter (\<lambda>s. f s = k) xs) in
      case countUp m (f x) k of
        None \<Rightarrow> (if n = 0 then None else Some (Count n))
      | Some (Count c) \<Rightarrow> Some (Count (c + n))
      | Some Concatenation \<Rightarrow> Some Concatenation)"
    by (rule Cons.IH)
  also have "\<dots> = (let n = length (filter (\<lambda>s. f s = k) (x # xs)) in
      case m k of
        None \<Rightarrow> (if n = 0 then None else Some (Count n))
      | Some (Count c) \<Rightarrow> Some (Count (c + n))
      | Some Concatenation \<Rightarrow> Some Concatenation)"
  proof (cases "f x = k")
    case True
    then show ?thesis
      by (simp add: countUp_same[OF assms] Let_def split: option.splits tally.splits)
  next
    case False
    then have "countUp m (f x) k = m k" by (intro countUp_other) simp
    with False show ?thesis by simp
  qed
  finally show ?case .
qed

lemma numberToString_inj: "numberToString i = numberToString j \<Longrightarrow> i = j"
proof -
  assume e: "numberToString i = numberToString j"
  have d: "delimited []" by (simp add: delimited_def)
  from parseNumber_numberToString[OF d, of i] parseNumber_numberToString[OF d, of j] e
  show ?thesis by simp
qed

lemma numberToString_own:
  "numberToString l \<notin> set inheritedNames" "numberToString l \<noteq> ''__proto__''"
proof -
  from numberToString_head[of l] obtain c cs where
    h: "numberToString l = c # cs" "c = CHR ''-'' \<or> isDigit c" by blast
  then show "numberToString l \<notin> set inheritedNames" "numberToString l \<noteq> ''__proto__''"
    by (auto simp: inheritedNames_def isDigit_def)
qed

text \<open>
  C6, as the code has it. When the absolute values of the totals sum to less than
  \<open>2 ^ 52\<close>: \<open>totalStudents\<close> is the number of students, \<open>totalPoints\<close> the sum of their
  totals, \<open>averagePoints\<close> the sum divided by the number of students and rounded to the
  nearest integer, a half rounding up (0 when there is no student); the category
  distribution gives, for each category that is not a name inherited from
  \<open>Object.prototype\<close>, the number of students that have it, and the level distribution
  gives that number for each capped level \<open>min 2 (totalPoints div 100)\<close>, with no entry
  where the number is 0. With no student both distributions are empty.
\<close>

theorem stats_values:
  assumes "sum_list (map (\<lambda>s. \<bar>totalPoints s\<bar>) (students st)) < 2 ^ 52"
  shows "totalStudents (getStats st) = length (students st)
   \<and> totalActivities (getStats st) = length (createdActivities st)
   \<and> totalActivitiesAssigned (getStats st) = length (activities st)
   \<and> stats_totalPoints (getStats st) = real_of_int (sum_list (map totalPoints (students st)))
   \<and> averagePoints (getStats st) =
       (if students st = [] then 0
        else (2 * sum_list (map totalPoints (students st)) + int (length (students st)))
               div (2 * int (length (students st))))
   \<and> (students st \<noteq> [] \<longrightarrow>
        2 * \<bar>averagePoints (getStats st) * int (length (students st))
               - sum_list (map totalPoints (students st))\<bar> \<le> int (length (students st)))
   \<and> (\<forall>c. c \<notin> set inheritedNames \<longrightarrow> c \<noteq> ''__proto__'' \<longrightarrow>
        pokemonDistribution (getStats st) c =
        (let n = length (filter (\<lambda>s. pokemonType s = c) (students st))
         in if n = 0 then None else Some (Count n)))
   \<and> (\<forall>l. evolutionDistribution (getStats st) (numberToString l) =
        (let n = length (filter (\<lambda>s. min 2 (totalPoints s div 100) = l) (students st))
         in if n = 0 then None else Some (Count n)))
   \<and> (students st = [] \<longrightarrow>
        totalStudents (getStats st) = 0 \<and> averagePoints (getStats st) = 0
        \<and> pokemonDistribution (getStats st) = Map.empty
        \<and> evolutionDistribution (getStats st) = Map.empty)"
proof -
  let ?n = "length (students st)"
  let ?t = "sum_list (map totalPoints (students st))"
  have "\<bar>0::int\<bar> + sum_list (map (\<lambda>s. \<bar>totalPoints s\<bar>) (students st)) < 2 ^ 53"
    using assms by simp
  from foldl_binary64_sum[OF this]
  have sum: "foldl (\<lambda>sum s. binary64 (sum + real_of_int (totalPoints s))) 0 (students st)
      = real_of_int ?t" by simp
  have small: "\<bar>?t\<bar> < 2 ^ 52"
    using abs_sum_list_le[of totalPoints "students st"] assms by linarith
  have avg0: "averagePoints (getStats st) = (if students st = [] then 0 else round (real_of_int ?t / real ?n))"
  proof (cases "students st = []")
    case True
    then show ?thesis by (simp add: getStats_def)
  next
    case False
    then have n: "0 < ?n" by simp
    from Math_round_binary64_quotient[OF small n] False show ?thesis
      by (simp add: getStats_def Let_def sum Math_round_def round_def)
  qed
  have avg: "averagePoints (getStats st) = (if students st = [] then 0 else (2 * ?t + int ?n) div (2 * int ?n))"
    unfolding avg0 by (simp add: round_div)
  have near: "2 * \<bar>averagePoints (getStats st) * int ?n - ?t\<bar> \<le> int ?n" if "students st \<noteq> []"
  proof -
    from that have n: "0 < ?n" by simp
    have "\<bar>real_of_int (round (real_of_int ?t / real ?n)) - real_of_int ?t / real ?n\<bar> \<le> 1 / 2"
      by (rule of_int_round_abs_le)
    then have "\<bar>real_of_int (round (real_of_int ?t / real ?n)) * real ?n - real_of_int ?t\<bar> \<le> real ?n / 2"
      using n by (simp add: field_simps abs_le_iff)
    then have "2 * \<bar>real_of_int (round (real_of_int ?t / real ?n) * int ?n - ?t)\<bar> \<le> real ?n"
      by simp
    then have "2 * \<bar>round (real_of_int ?t / real ?n) * int ?n - ?t\<bar> \<le> int ?n"
      by linarith
    with that show ?thesis by (simp add: avg0)
  qed
  have lev: "evolutionDistribution (getStats st) (numberToString l) =
        (let n = length (filter (\<lambda>s. min 2 (totalPoints s div 100) = l) (students st))
         in if n = 0 then None else Some (Count n))" for l
  proof -
    have "numberToString i = numberToString l \<longleftrightarrow> i = l" for i
      by (auto dest: numberToString_inj)
    then show ?thesis
      by (simp add: getStats_def Let_def foldl_countUp[OF numberToString_own])
  qed
  show ?thesis
    apply (intro conjI allI impI)
    subgoal by (simp add: getStats_def Let_def)
    subgoal by (simp add: getStats_def Let_def)
    subgoal by (simp add: getStats_def Let_def)
    subgoal by (simp add: getStats_def Let_def sum)
    subgoal by (rule avg)
    subgoal by (rule near)
    subgoal by (simp add: getStats_def Let_def foldl_countUp)
    subgoal by (rule lev)
    subgoal by (simp add: getStats_def Let_def)
    subgoal by (simp add: getStats_def Let_def)
    subgoal by (simp add: getStats_def Let_def)
    subgoal by (simp add: getStats_def Let_def)
    done
qed

theorem stats_values_witness:
  "sum_list (map (\<lambda>s. \<bar>totalPoints s\<bar>) (students store2)) < 2 ^ 52
   \<and> totalStudents (getStats store2) = 2
   \<and> stats_totalPoints (getStats store2) = 345
   \<and> averagePoints (getStats store2) = 173
   \<and> pokemonDistribution (getStats store2) ''Fire'' = Some (Count 1)
   \<and> pokemonDistribution (getStats store2) ''Rock'' = None
   \<and> evolutionDistribution (getStats store2) ''0'' = Some (Count 1)
   \<and> evolutionDistribution (getStats store2) ''1'' = None
   \<and> evolutionDistribution (getStats store2) ''2'' = Some (Count 1)
   \<and> totalStudents (getStats emptyStore) = 0
   \<and> averagePoints (getStats emptyStore) = 0
   \<and> pokemonDistribution (getStats emptyStore) = Map.empty
   \<and> evolutionDistribution (getStats emptyStore) = Map.empty"
proof -
  have s: "students store2 = [ash, misty]" "students emptyStore = []"
    by (simp_all add: store2_def emptyStore_def)
  have v: "totalPoints ash = 95" "totalPoints misty = 250"
    "pokemonType ash = ''Fire''" "pokemonType misty = ''Water''"
    by (simp_all add: ash_def misty_def)
  have k: "''Fire'' \<notin> set inheritedNames" "''Rock'' \<notin> set inheritedNames"
    by (simp_all add: inheritedNames_def)
  have n: "numberToString 0 = ''0''" "numberToString 1 = ''1''" "numberToString 2 = ''2''"
    by code_simp+
  have b: "sum_list (map (\<lambda>s. \<bar>totalPoints s\<bar>) (students store2)) < 2 ^ 52"
    "sum_list (map (\<lambda>s. \<bar>totalPoints s\<bar>) (students emptyStore)) < 2 ^ 52"
    unfolding s by (simp_all add: v)
  from stats_values[OF b(1)] stats_values[OF b(2)] b(1) show ?thesis
    unfolding s by (simp add: v k n[symmetric] Let_def)
qed

text \<open>
  A student of the category \<open>constructor\<close> leaves a string in place of a count, one of
  the category \<open>__proto__\<close> leaves nothing, and at the totals 6755399441055745, 0 and 0 the
  quotient is rounded to binary64 before \<open>Math.round\<close>, which then goes up.
\<close>

theorem stats_counterexample:
  "pokemonType eve = ''constructor''
   \<and> pokemonDistribution (getStats inheritedStore) ''constructor'' = Some Concatenation
   \<and> pokemonType mallory = ''__proto__''
   \<and> pokemonDistribution (getStats inheritedStore) ''__proto__'' = None
   \<and> averagePoints (getStats roundedStore) = 2251799813685249
   \<and> round (6755399441055745 / 3 :: real) = 2251799813685248"
  by code_simp

subsection \<open>Sequences of requests\<close>


















end
